theory Spec2Isabelle
  imports Main "HOL-Library.Word"
begin

unbundle bit_operations_syntax

section \<open>Remote processor resource manager (rprm): data model\<close>

text \<open>
  The development follows the indexed resource manager (the file that defines
  \<^verbatim>\<open>rprm_manager_register\<close>, \<^verbatim>\<open>rprm_probe\<close>, \<^verbatim>\<open>rprm_cb\<close> and \<^verbatim>\<open>rprm_remove\<close>) together with the
  wire structures of \<^verbatim>\<open>linux/rpmsg_resmgr.h\<close>.
\<close>

type_synonym u8 = "8 word"
type_synonym u32 = "32 word"

text \<open>\<^verbatim>\<open>void *handle\<close>: opaque to the framework, meaningful to the resource driver only.\<close>
type_synonym handle = nat

text \<open>Kernel error numbers used by the resource manager (returned negated).\<close>

abbreviation ENOENT :: int where "ENOENT \<equiv> 2"
abbreviation ENOMEM :: int where "ENOMEM \<equiv> 12"
abbreviation EBUSY :: int where "EBUSY \<equiv> 16"
abbreviation EEXIST :: int where "EEXIST \<equiv> 17"
abbreviation EINVAL :: int where "EINVAL \<equiv> 22"
abbreviation ENOTCONN :: int where "ENOTCONN \<equiv> 107"

text \<open>\<^verbatim>\<open>enum rprm_action\<close>.\<close>

abbreviation RPRM_REQUEST :: u32 where "RPRM_REQUEST \<equiv> 0"
abbreviation RPRM_RELEASE :: u32 where "RPRM_RELEASE \<equiv> 1"

text \<open>
  \<^verbatim>\<open>struct rprm_res\<close>. The two mandatory operations act on the state \<open>'d\<close> of the low level
  driver (timers, clocks, DMA channels). \<^verbatim>\<open>request\<close> receives the argument bytes of the
  message through a non-const pointer: it returns its status, the handle it stored through
  \<^verbatim>\<open>void **handle\<close>, the bytes it left in the argument buffer, and the new driver state.
\<close>

record 'd rprm_res =
  res_name :: string
  res_request :: "'d \<Rightarrow> u8 list \<Rightarrow> int \<times> handle \<times> u8 list \<times> 'd"
  res_release :: "'d \<Rightarrow> handle \<Rightarrow> int \<times> 'd"

text \<open>
  \<^verbatim>\<open>struct rprm_manager\<close>. \<^verbatim>\<open>owner\<close> names the module that implements the manager;
  \<^verbatim>\<open>resources\<close> is the array and \<^verbatim>\<open>res_cnt\<close> its number of entries (the provider sets it to
  \<^verbatim>\<open>ARRAY_SIZE(resources)\<close>), so the model keeps the array as a list and reads the count off it.
\<close>

record 'd rprm_manager =
  mgr_name :: string
  mgr_owner :: nat
  resources :: "'d rprm_res list"

definition res_cnt :: "'d rprm_manager \<Rightarrow> nat" where
  "res_cnt m = length (resources m)"

text \<open>
  \<^verbatim>\<open>struct rprm_elem\<close>: one requested resource. \<open>elem_addr\<close> is the address \<^verbatim>\<open>kzalloc\<close>
  returned for the element; list nodes and idr entries are pointers to it, and two elements
  are the same exactly when their addresses are.
\<close>

record 'd rprm_elem =
  elem_addr :: nat
  elem_res :: "'d rprm_res"
  elem_handle :: handle
  elem_id :: nat

text \<open>
  Calls made into the resource drivers are recorded in the order they happen: the resource
  by name, with the arguments of a request and the handle of a release.
\<close>

datatype drv_call =
  Request_call string "u8 list"
| Release_call string handle

text \<open>
  \<^verbatim>\<open>struct rprm_request_ack\<close> as filled in by \<^verbatim>\<open>rprm_cb\<close>: \<^verbatim>\<open>res_id\<close> and \<^verbatim>\<open>data\<close>
  (\<^verbatim>\<open>base\<close> is never assigned there, its four bytes are whatever the stack buffer held).
  \<^verbatim>\<open>struct rprm_ack\<close>: \<open>ack_ret\<close> is the status assigned to the field \<^verbatim>\<open>ret\<close>,
  \<open>ack_size\<close> is the length passed to \<^verbatim>\<open>rpmsg_sendto\<close>, and \<open>ack_data\<close> the part of the
  buffer behind the header that this length covers (nothing when the length is that of the
  header).
\<close>

record rprm_request_ack =
  rack_res_id :: nat
  rack_data :: "u8 list"

record rprm_ack =
  ack_action :: u32
  ack_ret :: int
  ack_size :: int
  ack_data :: "rprm_request_ack option"

text \<open>
  \<^verbatim>\<open>struct rprm\<close>: one connection. \<open>res_list\<close> is the linked list (head first), \<open>id_list\<close> the
  idr, \<open>rpdev_dst\<close> the remote address of the channel. The remaining fields are the
  surroundings the connection acts on: the driver state, the log of driver calls, the
  messages sent on the channel, and the next address \<^verbatim>\<open>kzalloc\<close> hands out.
\<close>

record 'd rprm =
  res_list :: "'d rprm_elem list"
  id_list :: "(nat \<times> 'd rprm_elem) list"
  mgr :: "'d rprm_manager"
  rpdev_dst :: u32
  drv :: 'd
  calls :: "drv_call list"
  outbox :: "(u32 \<times> rprm_ack) list"
  next_addr :: nat

text \<open>
  What the kernel decides during one request: whether \<^verbatim>\<open>kzalloc\<close> and \<^verbatim>\<open>idr_pre_get\<close>
  find memory, and the status of \<^verbatim>\<open>idr_get_new\<close> (0, or its error).
\<close>

record kenv =
  kzalloc_ok :: bool
  idr_pre_get_ok :: bool
  idr_get_new_ret :: int

section \<open>The idr\<close>

text \<open>
  The kernel idr maps ids to pointers; it is kept as an association list. Ids have 31 bits:
  \<^verbatim>\<open>idr_find\<close> and \<^verbatim>\<open>idr_remove\<close> mask the id with \<^verbatim>\<open>MAX_ID_MASK\<close>, and \<^verbatim>\<open>idr_get_new\<close>
  stores the pointer under the smallest id not in use. Among the first \<open>n + 1\<close> ids at
  least one is free when the idr has \<open>n\<close> entries, so the search below always finds it.
\<close>

definition idr_key :: "int \<Rightarrow> nat" where
  "idr_key i = nat (i mod 2 ^ 31)"

definition idr_find :: "(nat \<times> 'a) list \<Rightarrow> int \<Rightarrow> 'a option" where
  "idr_find idr i = map_of idr (idr_key i)"

definition idr_remove :: "(nat \<times> 'a) list \<Rightarrow> int \<Rightarrow> (nat \<times> 'a) list" where
  "idr_remove idr i = filter (\<lambda>p. fst p \<noteq> idr_key i) idr"

definition idr_free_id :: "(nat \<times> 'a) list \<Rightarrow> nat" where
  "idr_free_id idr =
     (case find (\<lambda>i. i \<notin> fst ` set idr) [0 ..< Suc (length idr)] of
        Some i \<Rightarrow> i
      | None \<Rightarrow> Suc (length idr))"

text \<open>
  The status of \<^verbatim>\<open>idr_pre_get\<close> followed by \<^verbatim>\<open>idr_get_new\<close>, as
  \<^verbatim>\<open>rprm_resource_request\<close> computes it.
\<close>

definition idr_status :: "kenv \<Rightarrow> int" where
  "idr_status env = (if \<not> idr_pre_get_ok env then - ENOMEM else idr_get_new_ret env)"

section \<open>Requesting and releasing resources\<close>

text \<open>\<^verbatim>\<open>_resource_release\<close>: the element stays on the list when the driver reports an error.\<close>

definition resource_release :: "'d rprm \<Rightarrow> 'd rprm_elem \<Rightarrow> int \<times> 'd rprm" where
  "resource_release rprm e =
     (let res = elem_res e;
          (ret, d) = res_release res (drv rprm) (elem_handle e);
          rprm1 = rprm\<lparr>drv := d,
                       calls := calls rprm @ [Release_call (res_name res) (elem_handle e)]\<rparr>
      in if ret \<noteq> 0 then (ret, rprm1)
         else (0, rprm1\<lparr>res_list :=
                           filter (\<lambda>x. elem_addr x \<noteq> elem_addr e) (res_list rprm1)\<rparr>))"

definition rprm_resource_release :: "'d rprm \<Rightarrow> int \<Rightarrow> int \<times> 'd rprm" where
  "rprm_resource_release rprm res_id =
     (case idr_find (id_list rprm) res_id of
        None \<Rightarrow> (- ENOENT, rprm)
      | Some e \<Rightarrow>
          resource_release (rprm\<lparr>id_list := idr_remove (id_list rprm) res_id\<rparr>) e)"

text \<open>
  The argument buffer has the length of the message data; what the driver wrote replaces
  its first bytes.
\<close>

definition args_after :: "u8 list \<Rightarrow> u8 list \<Rightarrow> u8 list" where
  "args_after data written = take (length data) written @ drop (length written) data"

text \<open>The argument buffer as the \<^verbatim>\<open>request\<close> of resource \<open>idx\<close> leaves it.\<close>

definition args_left :: "'d rprm \<Rightarrow> nat \<Rightarrow> u8 list \<Rightarrow> u8 list" where
  "args_left rprm idx data =
     (case res_request (resources (mgr rprm) ! idx) (drv rprm) data of
        (ret, h, written, d) \<Rightarrow> args_after data written)"

text \<open>
  \<^verbatim>\<open>rprm_resource_request\<close>. The result is \<open>Inl ret\<close> for a failure with status \<open>ret\<close> and
  \<open>Inr res_id\<close> for success; the argument buffer as the driver left it is returned with it.
\<close>

definition rprm_resource_request ::
  "kenv \<Rightarrow> 'd rprm \<Rightarrow> nat \<Rightarrow> u8 list \<Rightarrow> (int + nat) \<times> u8 list \<times> 'd rprm" where
  "rprm_resource_request env rprm idx data =
     (if idx \<ge> res_cnt (mgr rprm) then (Inl (- EINVAL), data, rprm)
      else
        let res = resources (mgr rprm) ! idx in
        if \<not> kzalloc_ok env then (Inl (- ENOMEM), data, rprm)
        else
          let addr = next_addr rprm;
              (ret, h, written, d) = res_request res (drv rprm) data;
              buf = args_after data written;
              rprm1 = rprm\<lparr>drv := d, next_addr := Suc addr,
                           calls := calls rprm @ [Request_call (res_name res) data]\<rparr>
          in
          if ret \<noteq> 0 then (Inl ret, buf, rprm1)
          else
            let ret = idr_status env in
            if ret \<noteq> 0 then
              (let (r, d') = res_release res (drv rprm1) h
               in (Inl ret, buf,
                   rprm1\<lparr>drv := d',
                          calls := calls rprm1 @ [Release_call (res_name res) h]\<rparr>))
            else
              let res_id = idr_free_id (id_list rprm1);
                  e = \<lparr>elem_addr = addr, elem_res = res, elem_handle = h, elem_id = res_id\<rparr>
              in (Inr res_id, buf,
                  rprm1\<lparr>id_list := (res_id, e) # id_list rprm1,
                         res_list := e # res_list rprm1\<rparr>))"

text \<open>
  \<^verbatim>\<open>rprm_remove\<close>: \<^verbatim>\<open>list_for_each_entry_safe\<close> visits the nodes that are on the list
  when the walk starts, from the head on; then the idr is emptied.
\<close>

fun release_each :: "'d rprm \<Rightarrow> 'd rprm_elem list \<Rightarrow> 'd rprm" where
  "release_each rprm [] = rprm"
| "release_each rprm (e # es) = release_each (snd (resource_release rprm e)) es"

definition rprm_remove :: "'d rprm \<Rightarrow> 'd rprm" where
  "rprm_remove rprm = (release_each rprm (res_list rprm))\<lparr>id_list := []\<rparr>"

section \<open>The message callback\<close>

text \<open>
  Sizes of the packed wire structures, and of the stack buffer \<^verbatim>\<open>ack_msg\<close>
  (\<^verbatim>\<open>MAX_RES_SIZE\<close> is 128).
\<close>

abbreviation sizeof_rprm_msg :: int where "sizeof_rprm_msg \<equiv> 4"
abbreviation sizeof_rprm_request :: int where "sizeof_rprm_request \<equiv> 4"
abbreviation sizeof_rprm_release :: int where "sizeof_rprm_release \<equiv> 4"
abbreviation sizeof_rprm_ack :: int where "sizeof_rprm_ack \<equiv> 8"
abbreviation sizeof_rprm_request_ack :: int where "sizeof_rprm_request_ack \<equiv> 8"
abbreviation MAX_RES_SIZE :: int where "MAX_RES_SIZE \<equiv> 128"

definition MAX_MSG :: int where
  "MAX_MSG = sizeof_rprm_msg + sizeof_rprm_request + MAX_RES_SIZE"

text \<open>A \<^verbatim>\<open>u32\<close> field at byte offset \<open>off\<close> of a message (the target is little endian).\<close>

definition get_u32 :: "u8 list \<Rightarrow> nat \<Rightarrow> u32" where
  "get_u32 bs off =
     ucast (bs ! off) OR push_bit 8 (ucast (bs ! (off + 1)))
       OR push_bit 16 (ucast (bs ! (off + 2))) OR push_bit 24 (ucast (bs ! (off + 3)))"

text \<open>
  The label \<^verbatim>\<open>out\<close> of \<^verbatim>\<open>rprm_cb\<close>: fill in the header, drop the payload when \<open>ret\<close> is not
  zero, and hand the buffer to \<^verbatim>\<open>rpmsg_sendto\<close> for the sender's address.
\<close>

definition ack_out ::
  "'d rprm \<Rightarrow> u32 \<Rightarrow> u32 \<Rightarrow> int \<Rightarrow> int \<Rightarrow> rprm_request_ack option \<Rightarrow> 'd rprm" where
  "ack_out rprm src action ret len rack =
     (let len' = (if ret \<noteq> 0 then 0 else len)
      in rprm\<lparr>outbox := outbox rprm @
                  [(src, \<lparr>ack_action = action, ack_ret = ret,
                          ack_size = sizeof_rprm_ack + len',
                          ack_data = (if len' = 0 then None else rack)\<rparr>)]\<rparr>)"

text \<open>
  \<^verbatim>\<open>memcpy(rack->data, req->data, len)\<close> writes \<open>len\<close> bytes behind the two acknowledgement
  headers of \<^verbatim>\<open>ack_msg[MAX_MSG]\<close>. When they do not fit the copy runs past the end of the
  buffer; the behaviour of the C code is undefined from there on, and the model stops.
\<close>

datatype fault = Stack_overrun

text \<open>\<^verbatim>\<open>rprm_cb\<close>, for a message \<open>data\<close> of \<open>length data\<close> bytes that arrived from address \<open>src\<close>.\<close>

definition rprm_cb :: "kenv \<Rightarrow> 'd rprm \<Rightarrow> u8 list \<Rightarrow> u32 \<Rightarrow> fault + 'd rprm" where
  "rprm_cb env rprm data src =
     (let len = int (length data) - sizeof_rprm_msg in
      if len < 0 then Inr rprm
      else
        let action = get_u32 data 0 in
        if rpdev_dst rprm \<noteq> src then Inr (ack_out rprm src action (- ENOTCONN) len None)
        else if action = RPRM_REQUEST then
          (let len = len - sizeof_rprm_request in
           if len < 0 then Inr (ack_out rprm src action (- EINVAL) len None)
           else
             case rprm_resource_request env rprm (unat (get_u32 data 4)) (drop 8 data) of
               (Inl ret, buf, rprm') \<Rightarrow> Inr (ack_out rprm' src action ret len None)
             | (Inr res_id, buf, rprm') \<Rightarrow>
                 if sizeof_rprm_ack + sizeof_rprm_request_ack + len > MAX_MSG
                 then Inl Stack_overrun
                 else Inr (ack_out rprm' src action 0 (len + sizeof_rprm_request_ack)
                             (Some \<lparr>rack_res_id = res_id, rack_data = buf\<rparr>)))
        else if action = RPRM_RELEASE then
          (let len = len - sizeof_rprm_release in
           if len < 0 then Inr rprm
           else Inr (snd (rprm_resource_release rprm (sint (get_u32 data 4)))))
        else Inr (ack_out rprm src action (- EINVAL) len None))"

section \<open>Connections over time\<close>

text \<open>
  The connection as \<^verbatim>\<open>rprm_probe\<close> sets it up for manager \<open>m\<close> on a channel whose remote
  address is \<open>dst\<close>: empty list, empty idr. \<open>d\<close> is the state of the drivers at that time.
\<close>

definition rprm_fresh :: "'d rprm_manager \<Rightarrow> u32 \<Rightarrow> 'd \<Rightarrow> 'd rprm" where
  "rprm_fresh m dst d =
     \<lparr>res_list = [], id_list = [], mgr = m, rpdev_dst = dst, drv = d,
      calls = [], outbox = [], next_addr = 0\<rparr>"

text \<open>
  The messages a connection receives, one callback after the other (the callbacks of one
  channel do not overlap). Each message comes with what the kernel decides while it is
  handled, and with the address it was sent from.
\<close>

fun rprm_run :: "'d rprm \<Rightarrow> (kenv \<times> u8 list \<times> u32) list \<Rightarrow> fault + 'd rprm" where
  "rprm_run rprm [] = Inr rprm"
| "rprm_run rprm ((env, data, src) # ms) =
     (case rprm_cb env rprm data src of
        Inl f \<Rightarrow> Inl f
      | Inr rprm' \<Rightarrow> rprm_run rprm' ms)"

text \<open>Requests made one after the other, with no release in between, and their results.\<close>

fun request_each :: "'d rprm \<Rightarrow> (kenv \<times> nat \<times> u8 list) list \<Rightarrow> (int + nat) list \<times> 'd rprm" where
  "request_each rprm [] = ([], rprm)"
| "request_each rprm ((env, idx, data) # rs) =
     (case rprm_resource_request env rprm idx data of
        (r, buf, rprm') \<Rightarrow>
          (case request_each rprm' rs of (res, rprm'') \<Rightarrow> (r # res, rprm'')))"

text \<open>The driver call that releases an element.\<close>

definition release_call :: "'d rprm_elem \<Rightarrow> drv_call" where
  "release_call e = Release_call (res_name (elem_res e)) (elem_handle e)"

text \<open>
  Consistency of idr and list. \<open>table_in_list\<close>: every id occurs once in the idr, every
  node once in the list, and the element stored under an id is a node of the list that
  carries this id. \<open>list_in_table\<close>: every node of the list is stored in the idr, under its id.
\<close>

definition table_in_list :: "'d rprm \<Rightarrow> bool" where
  "table_in_list s \<longleftrightarrow>
     distinct (map fst (id_list s)) \<and> distinct (map elem_addr (res_list s)) \<and>
     (\<forall>(k, e) \<in> set (id_list s). elem_id e = k \<and> e \<in> set (res_list s))"

definition list_in_table :: "'d rprm \<Rightarrow> bool" where
  "list_in_table s \<longleftrightarrow> (\<forall>e \<in> set (res_list s). (elem_id e, e) \<in> set (id_list s))"

text \<open>Addresses handed out by \<^verbatim>\<open>kzalloc\<close> so far lie below \<open>next_addr\<close>.\<close>

definition addrs_below :: "'d rprm \<Rightarrow> bool" where
  "addrs_below s \<longleftrightarrow> (\<forall>e \<in> set (res_list s). elem_addr e < next_addr s)"

text \<open>Every node of the list belongs to a resource of the connection's manager.\<close>

definition res_of_mgr :: "'d rprm \<Rightarrow> bool" where
  "res_of_mgr s \<longleftrightarrow> (\<forall>e \<in> set (res_list s). elem_res e \<in> set (resources (mgr s)))"

text \<open>A manager all of whose drivers release without error.\<close>

definition releases_succeed :: "'d rprm_manager \<Rightarrow> bool" where
  "releases_succeed m \<longleftrightarrow> (\<forall>r \<in> set (resources m). \<forall>d h. fst (res_release r d h) = 0)"

section \<open>Managers and connections\<close>

text \<open>
  The registered managers (\<^verbatim>\<open>mgr_table\<close>, in list order), the reference count of every
  module, and the connections that exist. Each connection record carries the driver state
  its callbacks see. Managers are passed by value, so the tests of
  \<^verbatim>\<open>rprm_manager_register\<close> and \<^verbatim>\<open>rprm_manager_unregister\<close> for a null pointer have no
  counterpart.
\<close>

record 'd rprm_system =
  mgr_table :: "'d rprm_manager list"
  module_refcount :: "nat \<Rightarrow> nat"
  conns :: "'d rprm list"

definition find_mgr_by_name :: "'d rprm_manager list \<Rightarrow> string \<Rightarrow> 'd rprm_manager option" where
  "find_mgr_by_name tbl n = find (\<lambda>m. mgr_name m = n) tbl"

definition rprm_manager_register ::
  "'d rprm_system \<Rightarrow> 'd rprm_manager \<Rightarrow> int \<times> 'd rprm_system" where
  "rprm_manager_register sys m =
     (case find_mgr_by_name (mgr_table sys) (mgr_name m) of
        Some _ \<Rightarrow> (- EEXIST, sys)
      | None \<Rightarrow> (0, sys\<lparr>mgr_table := mgr_table sys @ [m]\<rparr>))"

definition rprm_manager_unregister ::
  "'d rprm_system \<Rightarrow> 'd rprm_manager \<Rightarrow> int \<times> 'd rprm_system" where
  "rprm_manager_unregister sys m =
     (if module_refcount sys (mgr_owner m) \<noteq> 0 then (- EBUSY, sys)
      else (0, sys\<lparr>mgr_table := remove1 m (mgr_table sys)\<rparr>))"

text \<open>
  \<^verbatim>\<open>rprm_probe\<close> for a new channel named \<open>n\<close> with remote address \<open>dst\<close>. \<open>get_ok\<close> tells
  whether \<^verbatim>\<open>try_module_get\<close> succeeds and \<open>kmalloc_ok\<close> whether the connection can be
  allocated. The status returned is also the one sent back in the connection
  acknowledgement.
\<close>

definition rprm_probe ::
  "'d rprm_system \<Rightarrow> string \<Rightarrow> u32 \<Rightarrow> 'd \<Rightarrow> bool \<Rightarrow> bool \<Rightarrow> int \<times> 'd rprm_system" where
  "rprm_probe sys n dst d get_ok kmalloc_ok =
     (case find_mgr_by_name (mgr_table sys) n of
        None \<Rightarrow> (- ENOENT, sys)
      | Some m \<Rightarrow>
          if \<not> get_ok then (- EINVAL, sys)
          else if \<not> kmalloc_ok then (- ENOMEM, sys)
          else (0, sys\<lparr>module_refcount :=
                           (module_refcount sys)
                             (mgr_owner m := Suc (module_refcount sys (mgr_owner m))),
                         conns := conns sys @ [rprm_fresh m dst d]\<rparr>))"

text \<open>
  The remove callback for connection number \<open>i\<close>: \<^verbatim>\<open>rprm_remove\<close> releases what is left,
  puts the module reference back and frees the connection.
\<close>

definition rprm_remove_channel :: "'d rprm_system \<Rightarrow> nat \<Rightarrow> 'd rprm_system" where
  "rprm_remove_channel sys i =
     (if i < length (conns sys) then
        let c = rprm_remove (conns sys ! i); ow = mgr_owner (mgr c)
        in sys\<lparr>module_refcount := (module_refcount sys)(ow := module_refcount sys ow - 1),
               conns := take i (conns sys) @ drop (Suc i) (conns sys)\<rparr>
      else sys)"

datatype 'd sys_op =
  Register "'d rprm_manager"
| Unregister "'d rprm_manager"
| Probe string u32 'd bool bool
| Message nat kenv "u8 list" u32
| Remove nat

fun sys_step :: "'d rprm_system \<Rightarrow> 'd sys_op \<Rightarrow> fault + 'd rprm_system" where
  "sys_step sys (Register m) = Inr (snd (rprm_manager_register sys m))"
| "sys_step sys (Unregister m) = Inr (snd (rprm_manager_unregister sys m))"
| "sys_step sys (Probe n dst d get_ok kmalloc_ok) =
     Inr (snd (rprm_probe sys n dst d get_ok kmalloc_ok))"
| "sys_step sys (Message i env data src) =
     (if i < length (conns sys) then
        (case rprm_cb env (conns sys ! i) data src of
           Inl f \<Rightarrow> Inl f
         | Inr c \<Rightarrow> Inr (sys\<lparr>conns := (conns sys)[i := c]\<rparr>))
      else Inr sys)"
| "sys_step sys (Remove i) = Inr (rprm_remove_channel sys i)"

fun sys_run :: "'d rprm_system \<Rightarrow> 'd sys_op list \<Rightarrow> fault + 'd rprm_system" where
  "sys_run sys [] = Inr sys"
| "sys_run sys (op # ops) =
     (case sys_step sys op of Inl f \<Rightarrow> Inl f | Inr sys' \<Rightarrow> sys_run sys' ops)"

definition sys_init :: "'d rprm_system" where
  "sys_init = \<lparr>mgr_table = [], module_refcount = (\<lambda>_. 0), conns = []\<rparr>"

text \<open>The number of connections that hold a reference on module \<open>ow\<close>.\<close>

definition conns_of :: "'d rprm_system \<Rightarrow> nat \<Rightarrow> nat" where
  "conns_of sys ow = length (filter (\<lambda>c. mgr_owner (mgr c) = ow) (conns sys))"

text \<open>
  What holds of managers and connections at any time: a module's reference count is the
  number of connections to its managers, the manager of every connection is registered,
  and registered managers have different names.
\<close>

definition sys_ok :: "'d rprm_system \<Rightarrow> bool" where
  "sys_ok sys \<longleftrightarrow>
     (\<forall>ow. module_refcount sys ow = conns_of sys ow) \<and>
     (\<forall>c \<in> set (conns sys). mgr c \<in> set (mgr_table sys)) \<and>
     distinct (map mgr_name (mgr_table sys))"

section \<open>Resource drivers used in the examples\<close>

text \<open>
  The state of the hardware behind the drivers: the general purpose timers in use, the
  free DMA channels, and the depots the sDMA driver allocated (handle and channels).
\<close>

record hw =
  timers :: "nat list"
  dma_free :: "nat list"
  depots :: "(handle \<times> nat list) list"

definition put_u32 :: "u32 \<Rightarrow> u8 list" where
  "put_u32 w = [ucast w, ucast (drop_bit 8 w), ucast (drop_bit 16 w), ucast (drop_bit 24 w)]"

text \<open>
  The drivers of the OMAP provider, in outline; the timer, clock and DMA frameworks they
  call are reduced to the state above.

  \<^verbatim>\<open>rprm_gptimer_request\<close> and \<^verbatim>\<open>rprm_gptimer_release\<close>. The arguments must have the size
  of \<^verbatim>\<open>struct rprm_gpt\<close> (id and source clock, eight bytes); the id is looked up in the
  timers \<open>gpts\<close> of the platform data (id and timer number); a timer in use cannot be had
  again, and the source clock must be one of three. The handle stands for the depot of the
  timer. The release never fails.
\<close>

definition omap4_ducati_gpts :: "(nat \<times> nat) list" where
  "omap4_ducati_gpts = [(3, 3), (4, 4), (9, 9), (11, 11)]"

definition rprm_gptimer_request ::
  "(nat \<times> nat) list \<Rightarrow> hw \<Rightarrow> u8 list \<Rightarrow> int \<times> handle \<times> u8 list \<times> hw" where
  "rprm_gptimer_request gpts h data =
     (if length data \<noteq> 8 then (- EINVAL, 0, data, h)
      else
        case map_of gpts (unat (get_u32 data 0)) of
          None \<Rightarrow> (- EINVAL, 0, data, h)
        | Some gptn \<Rightarrow>
            if gptn \<in> set (timers h) then (- EBUSY, 0, data, h)
            else if 3 \<le> unat (get_u32 data 4) then (- EINVAL, 0, data, h)
            else (0, gptn, data, h\<lparr>timers := gptn # timers h\<rparr>))"

definition rprm_gptimer_release :: "hw \<Rightarrow> handle \<Rightarrow> int \<times> hw" where
  "rprm_gptimer_release h gptn = (0, h\<lparr>timers := removeAll gptn (timers h)\<rparr>)"

text \<open>
  \<^verbatim>\<open>rprm_sdma_request\<close> and \<^verbatim>\<open>rprm_sdma_release\<close>. The arguments must have the size of
  \<^verbatim>\<open>struct rprm_sdma\<close>: the number of channels, then \<open>max_chs\<close>
  (\<^verbatim>\<open>MAX_NUM_SDMA_CHANNELS\<close>) channel slots. The driver asks for one channel after the other
  and writes each into its slot of the argument buffer (\<^verbatim>\<open>sdma->channels[i] = ch\<close>); when a
  channel cannot be had, those obtained are given back. The handle stands for the depot that
  keeps the channels. The release never fails.
\<close>

definition rprm_sdma_request :: "nat \<Rightarrow> hw \<Rightarrow> u8 list \<Rightarrow> int \<times> handle \<times> u8 list \<times> hw" where
  "rprm_sdma_request max_chs h data =
     (if length data \<noteq> 4 + 4 * max_chs then (- EINVAL, 0, data, h)
      else
        let num_chs = unat (get_u32 data 0) in
        if num_chs > max_chs then (- EINVAL, 0, data, h)
        else
          let chs = take num_chs (dma_free h);
              written = take 4 data @ concat (map (\<lambda>c. put_u32 (of_nat c)) chs)
          in
          if length chs < num_chs then (- EBUSY, 0, written, h)
          else
            let sd = length (depots h)
            in (0, sd, written,
                h\<lparr>dma_free := drop num_chs (dma_free h), depots := depots h @ [(sd, chs)]\<rparr>))"

definition rprm_sdma_release :: "hw \<Rightarrow> handle \<Rightarrow> int \<times> hw" where
  "rprm_sdma_release h sd =
     (case map_of (depots h) sd of
        None \<Rightarrow> (0, h)
      | Some chs \<Rightarrow> (0, h\<lparr>dma_free := chs @ dma_free h\<rparr>))"

text \<open>
  A release that fails, as \<^verbatim>\<open>struct rprm_res\<close> allows: the hardware refuses to let go
  and the driver reports \<^verbatim>\<open>-EBUSY\<close>.
\<close>

definition stuck_release :: "hw \<Rightarrow> handle \<Rightarrow> int \<times> hw" where
  "stuck_release h x = (- EBUSY, h)"

definition omap_gptimer :: "hw rprm_res" where
  "omap_gptimer = \<lparr>res_name = ''omap-gptimer'', res_request = rprm_gptimer_request omap4_ducati_gpts,
                   res_release = rprm_gptimer_release\<rparr>"

definition omap_sdma :: "hw rprm_res" where
  "omap_sdma = \<lparr>res_name = ''omap-sdma'', res_request = rprm_sdma_request 2,
                res_release = rprm_sdma_release\<rparr>"

definition stuck_timer :: "hw rprm_res" where
  "stuck_timer = \<lparr>res_name = ''stuck-timer'', res_request = rprm_gptimer_request omap4_ducati_gpts,
                  res_release = stuck_release\<rparr>"

text \<open>
  Two managers for the examples. The first exposes the timer driver at index 0 and the sDMA
  driver (with two channel slots) at index 1; the table of the OMAP provider,
  \<^verbatim>\<open>omap_rprm_resources\<close>, has the auxiliary clock driver between the two, which is not
  modelled here, so that there the sDMA driver has index 2. The second manager has a timer
  driver whose release fails.
\<close>

definition ducati :: "hw rprm_manager" where
  "ducati = \<lparr>mgr_name = ''rprm-ducati'', mgr_owner = 1, resources = [omap_gptimer, omap_sdma]\<rparr>"

definition stuck_mgr :: "hw rprm_manager" where
  "stuck_mgr = \<lparr>mgr_name = ''rprm-stuck'', mgr_owner = 2, resources = [stuck_timer]\<rparr>"

definition hw0 :: hw where
  "hw0 = \<lparr>timers = [], dma_free = [5, 6, 7], depots = []\<rparr>"

definition kernel_ok :: kenv where
  "kernel_ok = \<lparr>kzalloc_ok = True, idr_pre_get_ok = True, idr_get_new_ret = 0\<rparr>"

text \<open>
  \<^verbatim>\<open>struct rprm_gpt\<close> for timer \<open>n\<close> with source clock 1, and the requests for timer 3
  and then timer 4.
\<close>

definition gpt_args :: "u8 \<Rightarrow> u8 list" where
  "gpt_args n = [n, 0, 0, 0, 1, 0, 0, 0]"

definition two_timers :: "(kenv \<times> nat \<times> u8 list) list" where
  "two_timers = [(kernel_ok, 0, gpt_args 3), (kernel_ok, 0, gpt_args 4)]"

text \<open>Messages: a request for resource \<open>idx\<close> with arguments, and a release of an id.\<close>

definition request_msg :: "u32 \<Rightarrow> u8 list \<Rightarrow> u8 list" where
  "request_msg idx args = put_u32 RPRM_REQUEST @ put_u32 idx @ args"

definition release_msg :: "u32 \<Rightarrow> u8 list" where
  "release_msg res_id = put_u32 RPRM_RELEASE @ put_u32 res_id"

text \<open>
  The manager is registered and a channel named after it is probed; then the channel is
  removed again.
\<close>

definition connect_ops :: "hw sys_op list" where
  "connect_ops = [Register ducati, Probe ''rprm-ducati'' 60 hw0 True True]"

definition disconnect_ops :: "hw sys_op list" where
  "disconnect_ops = [Register ducati, Probe ''rprm-ducati'' 60 hw0 True True, Remove 0]"

text \<open>
  Message sequences from the remote address 60: a request for timer 9; requests for timers
  9 and 4 followed by the release of id 0; a request for timer 3 followed by the release of
  id 0.
\<close>

definition timer9_msgs :: "(kenv \<times> u8 list \<times> u32) list" where
  "timer9_msgs = [(kernel_ok, request_msg 0 (gpt_args 9), 60)]"

definition timer_msgs :: "(kenv \<times> u8 list \<times> u32) list" where
  "timer_msgs =
     [(kernel_ok, request_msg 0 (gpt_args 9), 60), (kernel_ok, request_msg 0 (gpt_args 4), 60),
      (kernel_ok, release_msg 0, 60)]"

definition stuck_msgs :: "(kenv \<times> u8 list \<times> u32) list" where
  "stuck_msgs = [(kernel_ok, request_msg 0 (gpt_args 3), 60), (kernel_ok, release_msg 0, 60)]"


section \<open>Basic facts\<close>

lemma idr_free_id_fresh: "idr_free_id idr \<notin> fst ` set idr"
proof (cases "find (\<lambda>i. i \<notin> fst ` set idr) [0 ..< Suc (length idr)]")
  case None
  then have "\<forall>x \<in> set [0 ..< Suc (length idr)]. x \<in> fst ` set idr"
    unfolding find_None_iff by blast
  then have "{0 ..< Suc (length idr)} \<subseteq> fst ` set idr"
    by (simp only: set_upt) blast
  then have "card {0 ..< Suc (length idr)} \<le> card (fst ` set idr)"
    by (simp only: card_mono finite_imageI finite_set)
  also have "\<dots> \<le> card (set idr)" by (rule card_image_le) simp
  also have "\<dots> \<le> length idr" by (rule card_length)
  finally show ?thesis by simp
next
  case (Some i)
  then have "i \<notin> fst ` set idr"
    by (metis find_Some_iff)
  then show ?thesis
    unfolding idr_free_id_def Some by simp
qed

lemma resource_release_fields [simp]:
  "id_list (snd (resource_release s e)) = id_list s"
  "mgr (snd (resource_release s e)) = mgr s"
  "rpdev_dst (snd (resource_release s e)) = rpdev_dst s"
  "outbox (snd (resource_release s e)) = outbox s"
  "next_addr (snd (resource_release s e)) = next_addr s"
  "calls (snd (resource_release s e)) = calls s @ [release_call e]"
  by (simp_all add: resource_release_def release_call_def Let_def split: prod.splits)

lemma resource_release_list:
  "res_list (snd (resource_release s e)) = res_list s \<or>
   res_list (snd (resource_release s e)) = filter (\<lambda>x. elem_addr x \<noteq> elem_addr e) (res_list s)"
  by (simp add: resource_release_def Let_def split: prod.splits)

lemma resource_release_list_ok:
  "fst (res_release (elem_res e) (drv s) (elem_handle e)) = 0 \<Longrightarrow>
   res_list (snd (resource_release s e)) = filter (\<lambda>x. elem_addr x \<noteq> elem_addr e) (res_list s)"
  by (auto simp: resource_release_def Let_def split: prod.splits)

lemma table_in_list_release:
  assumes inv: "table_in_list s" and f: "map_of (id_list s) k = Some e"
  shows "table_in_list (snd (resource_release (s\<lparr>id_list := filter (\<lambda>p. fst p \<noteq> k) (id_list s)\<rparr>) e))"
proof -
  let ?s1 = "s\<lparr>id_list := filter (\<lambda>p. fst p \<noteq> k) (id_list s)\<rparr>"
  let ?s2 = "snd (resource_release ?s1 e)"
  have ke: "(k, e) \<in> set (id_list s)" using f by (rule map_of_SomeD)
  have d1: "distinct (map fst (id_list ?s2))"
    using inv by (simp add: table_in_list_def distinct_map_filter)
  have other: "elem_addr e' \<noteq> elem_addr e"
    if "(k', e') \<in> set (id_list s)" "k' \<noteq> k" for k' e'
  proof
    assume a: "elem_addr e' = elem_addr e"
    have "e' \<in> set (res_list s)" "e \<in> set (res_list s)" "elem_id e' = k'" "elem_id e = k"
      using inv that ke by (auto simp: table_in_list_def)
    moreover have "inj_on elem_addr (set (res_list s))"
      using inv by (simp add: table_in_list_def distinct_map)
    ultimately show False using a that(2) by (auto dest: inj_onD)
  qed
  from resource_release_list [of ?s1 e] show ?thesis
  proof
    assume "res_list ?s2 = res_list ?s1"
    then show ?thesis using inv d1 by (auto simp: table_in_list_def)
  next
    assume "res_list ?s2 = filter (\<lambda>x. elem_addr x \<noteq> elem_addr e) (res_list ?s1)"
    then show ?thesis using inv d1 other
      by (auto simp: table_in_list_def distinct_map_filter)
  qed
qed

lemma request_bad_index:
  "res_cnt (mgr s) \<le> idx \<Longrightarrow> rprm_resource_request env s idx data = (Inl (- EINVAL), data, s)"
  by (simp add: rprm_resource_request_def)

lemma request_no_memory:
  "idx < res_cnt (mgr s) \<Longrightarrow> \<not> kzalloc_ok env \<Longrightarrow>
   rprm_resource_request env s idx data = (Inl (- ENOMEM), data, s)"
  by (simp add: rprm_resource_request_def)

lemma request_driver_fails:
  "idx < res_cnt (mgr s) \<Longrightarrow> kzalloc_ok env \<Longrightarrow>
   res_request (resources (mgr s) ! idx) (drv s) data = (ret, h, w, d) \<Longrightarrow> ret \<noteq> 0 \<Longrightarrow>
   rprm_resource_request env s idx data =
     (Inl ret, args_after data w,
      s\<lparr>drv := d, next_addr := Suc (next_addr s),
        calls := calls s @ [Request_call (res_name (resources (mgr s) ! idx)) data]\<rparr>)"
  by (simp add: rprm_resource_request_def)

lemma request_idr_fails:
  "idx < res_cnt (mgr s) \<Longrightarrow> kzalloc_ok env \<Longrightarrow>
   res_request (resources (mgr s) ! idx) (drv s) data = (0, h, w, d) \<Longrightarrow>
   idr_status env \<noteq> 0 \<Longrightarrow>
   res_release (resources (mgr s) ! idx) d h = (r', d') \<Longrightarrow>
   rprm_resource_request env s idx data =
     (Inl (idr_status env), args_after data w,
      s\<lparr>drv := d', next_addr := Suc (next_addr s),
        calls := calls s @ [Request_call (res_name (resources (mgr s) ! idx)) data,
                            Release_call (res_name (resources (mgr s) ! idx)) h]\<rparr>)"
  by (simp add: rprm_resource_request_def Let_def)

lemma request_succeeds:
  "idx < res_cnt (mgr s) \<Longrightarrow> kzalloc_ok env \<Longrightarrow>
   res_request (resources (mgr s) ! idx) (drv s) data = (0, h, w, d) \<Longrightarrow>
   idr_status env = 0 \<Longrightarrow>
   e = \<lparr>elem_addr = next_addr s, elem_res = resources (mgr s) ! idx, elem_handle = h,
        elem_id = idr_free_id (id_list s)\<rparr> \<Longrightarrow>
   rprm_resource_request env s idx data =
     (Inr (idr_free_id (id_list s)), args_after data w,
      s\<lparr>drv := d, next_addr := Suc (next_addr s),
        calls := calls s @ [Request_call (res_name (resources (mgr s) ! idx)) data],
        id_list := (idr_free_id (id_list s), e) # id_list s,
        res_list := e # res_list s\<rparr>)"
  by (simp add: rprm_resource_request_def Let_def)

lemma request_shape:
  obtains
    (bad_index) "res_cnt (mgr s) \<le> idx"
      "rprm_resource_request env s idx data = (Inl (- EINVAL), data, s)"
  | (no_memory) "idx < res_cnt (mgr s)"
      "rprm_resource_request env s idx data = (Inl (- ENOMEM), data, s)"
  | (driver_fails) ret w d where "idx < res_cnt (mgr s)" "ret \<noteq> 0"
      "rprm_resource_request env s idx data =
         (Inl ret, args_after data w,
          s\<lparr>drv := d, next_addr := Suc (next_addr s),
            calls := calls s @ [Request_call (res_name (resources (mgr s) ! idx)) data]\<rparr>)"
  | (idr_fails) h w d where "idx < res_cnt (mgr s)" "idr_status env \<noteq> 0"
      "rprm_resource_request env s idx data =
         (Inl (idr_status env), args_after data w,
          s\<lparr>drv := d, next_addr := Suc (next_addr s),
            calls := calls s @ [Request_call (res_name (resources (mgr s) ! idx)) data,
                                Release_call (res_name (resources (mgr s) ! idx)) h]\<rparr>)"
  | (succeeds) h w d where "idx < res_cnt (mgr s)"
      "res_request (resources (mgr s) ! idx) (drv s) data = (0, h, w, d)"
      "rprm_resource_request env s idx data =
         (Inr (idr_free_id (id_list s)), args_after data w,
          s\<lparr>drv := d, next_addr := Suc (next_addr s),
            calls := calls s @ [Request_call (res_name (resources (mgr s) ! idx)) data],
            id_list := (idr_free_id (id_list s),
                        \<lparr>elem_addr = next_addr s, elem_res = resources (mgr s) ! idx,
                         elem_handle = h, elem_id = idr_free_id (id_list s)\<rparr>) # id_list s,
            res_list := \<lparr>elem_addr = next_addr s, elem_res = resources (mgr s) ! idx,
                         elem_handle = h, elem_id = idr_free_id (id_list s)\<rparr> # res_list s\<rparr>)"
proof -
  obtain ret h w d where rq: "res_request (resources (mgr s) ! idx) (drv s) data = (ret, h, w, d)"
    by (metis prod_cases4)
  obtain r' d' where rl: "res_release (resources (mgr s) ! idx) d h = (r', d')"
    by (cases "res_release (resources (mgr s) ! idx) d h")
  consider "res_cnt (mgr s) \<le> idx" | "idx < res_cnt (mgr s)" "\<not> kzalloc_ok env"
    | "idx < res_cnt (mgr s)" "kzalloc_ok env" "ret \<noteq> 0"
    | "idx < res_cnt (mgr s)" "kzalloc_ok env" "ret = 0" "idr_status env \<noteq> 0"
    | "idx < res_cnt (mgr s)" "kzalloc_ok env" "ret = 0" "idr_status env = 0"
    by linarith
  then show thesis
  proof cases
    case 1
    show thesis by (rule bad_index [OF 1 request_bad_index [OF 1]])
  next
    case 2
    show thesis by (rule no_memory [OF 2(1) request_no_memory [OF 2]])
  next
    case 3
    show thesis by (rule driver_fails [OF 3(1,3) request_driver_fails [OF 3(1,2) rq 3(3)]])
  next
    case 4
    show thesis
      by (rule idr_fails [OF 4(1,4) request_idr_fails [OF 4(1,2) rq [unfolded 4(3)] 4(4) rl]])
  next
    case 5
    show thesis
      by (rule succeeds [OF 5(1) rq [unfolded 5(3)]
            request_succeeds [OF 5(1,2) rq [unfolded 5(3)] 5(4) refl]])
  qed
qed


lemma request_fields:
  assumes "rprm_resource_request env s idx data = (r, buf, s')"
  shows "mgr s' = mgr s" "rpdev_dst s' = rpdev_dst s" "outbox s' = outbox s"
proof -
  have "mgr s' = mgr s \<and> rpdev_dst s' = rpdev_dst s \<and> outbox s' = outbox s"
    using assms by (cases rule: request_shape [of s idx env data]) auto
  then show "mgr s' = mgr s" "rpdev_dst s' = rpdev_dst s" "outbox s' = outbox s"
    by simp_all
qed

lemma request_failure:
  assumes "rprm_resource_request env s idx data = (Inl ret, buf, s')"
  shows "ret \<noteq> 0" "res_list s' = res_list s" "id_list s' = id_list s"
    "next_addr s \<le> next_addr s'"
proof -
  have "ret \<noteq> 0 \<and> res_list s' = res_list s \<and> id_list s' = id_list s \<and>
      next_addr s \<le> next_addr s'"
    using assms by (cases rule: request_shape [of s idx env data]) auto
  then show "ret \<noteq> 0" "res_list s' = res_list s" "id_list s' = id_list s"
    "next_addr s \<le> next_addr s'"
    by simp_all
qed

lemma request_success:
  assumes "rprm_resource_request env s idx data = (Inr rid, buf, s')"
  shows "\<exists>e. rid = idr_free_id (id_list s) \<and> elem_id e = rid \<and> elem_addr e = next_addr s \<and>
    idx < res_cnt (mgr s) \<and> elem_res e = resources (mgr s) ! idx \<and>
    res_list s' = e # res_list s \<and> id_list s' = (rid, e) # id_list s \<and>
    next_addr s' = Suc (next_addr s)"
  using assms
proof (cases rule: request_shape [of s idx env data])
  case (succeeds h w d)
  let ?e = "\<lparr>elem_addr = next_addr s, elem_res = resources (mgr s) ! idx,
             elem_handle = h, elem_id = idr_free_id (id_list s)\<rparr>"
  from succeeds assms show ?thesis
    by (intro exI [where x = ?e]) auto
qed simp_all


lemma table_in_list_request:
  assumes inv: "table_in_list s" "addrs_below s"
    and req: "rprm_resource_request env s idx data = (r, buf, s')"
  shows "table_in_list s' \<and> addrs_below s'"
proof (cases r)
  case (Inl ret)
  from request_failure [OF req [unfolded Inl]] inv show ?thesis
    by (auto simp: table_in_list_def addrs_below_def)
next
  case (Inr rid)
  from request_success [OF req [unfolded Inr]]
  obtain e where e: "rid = idr_free_id (id_list s)" "elem_id e = rid"
    "elem_addr e = next_addr s" "res_list s' = e # res_list s"
    "id_list s' = (rid, e) # id_list s" "next_addr s' = Suc (next_addr s)"
    by blast
  have "rid \<notin> fst ` set (id_list s)"
    unfolding e(1) by (rule idr_free_id_fresh)
  moreover have "elem_addr e \<notin> elem_addr ` set (res_list s)"
    using inv(2) e(3) by (auto simp: addrs_below_def)
  ultimately show ?thesis using inv e
    by (auto simp: table_in_list_def addrs_below_def less_Suc_eq)
qed

lemma table_in_list_rprm_release:
  assumes inv: "table_in_list s" "addrs_below s"
  shows "table_in_list (snd (rprm_resource_release s i)) \<and>
         addrs_below (snd (rprm_resource_release s i))"
proof (cases "idr_find (id_list s) i")
  case None
  then show ?thesis using inv by (simp add: rprm_resource_release_def)
next
  case (Some e)
  let ?s1 = "s\<lparr>id_list := filter (\<lambda>p. fst p \<noteq> idr_key i) (id_list s)\<rparr>"
  have eq: "rprm_resource_release s i = resource_release ?s1 e"
    using Some by (simp add: rprm_resource_release_def idr_remove_def)
  have mo: "map_of (id_list s) (idr_key i) = Some e"
    using Some by (simp add: idr_find_def)
  have "table_in_list (snd (resource_release ?s1 e))"
    by (rule table_in_list_release [OF inv(1) mo])
  moreover have "addrs_below (snd (resource_release ?s1 e))"
    using inv(2) resource_release_list [of ?s1 e]
    by (auto simp: addrs_below_def)
  ultimately show ?thesis by (simp add: eq)
qed

lemma ack_out_fields [simp]:
  "res_list (ack_out s src a ret len rack) = res_list s"
  "id_list (ack_out s src a ret len rack) = id_list s"
  "mgr (ack_out s src a ret len rack) = mgr s"
  "rpdev_dst (ack_out s src a ret len rack) = rpdev_dst s"
  "next_addr (ack_out s src a ret len rack) = next_addr s"
  "calls (ack_out s src a ret len rack) = calls s"
  "drv (ack_out s src a ret len rack) = drv s"
  by (simp_all add: ack_out_def Let_def)

lemma ack_out_error:
  "ret \<noteq> 0 \<Longrightarrow> ack_out s src a ret len rack =
     s\<lparr>outbox := outbox s @
          [(src, \<lparr>ack_action = a, ack_ret = ret, ack_size = 8, ack_data = None\<rparr>)]\<rparr>"
  by (simp add: ack_out_def)

lemma cb_no_header:
  "length data < 4 \<Longrightarrow> rprm_cb env s data src = Inr s"
  by (simp add: rprm_cb_def)

lemma cb_not_connected:
  "4 \<le> length data \<Longrightarrow> rpdev_dst s \<noteq> src \<Longrightarrow>
   rprm_cb env s data src =
     Inr (s\<lparr>outbox := outbox s @
            [(src, \<lparr>ack_action = get_u32 data 0, ack_ret = - ENOTCONN, ack_size = 8,
                    ack_data = None\<rparr>)]\<rparr>)"
  by (simp add: rprm_cb_def ack_out_error)

lemma cb_request_no_header:
  "4 \<le> length data \<Longrightarrow> length data < 8 \<Longrightarrow> rpdev_dst s = src \<Longrightarrow>
   get_u32 data 0 = RPRM_REQUEST \<Longrightarrow>
   rprm_cb env s data src =
     Inr (s\<lparr>outbox := outbox s @
            [(src, \<lparr>ack_action = RPRM_REQUEST, ack_ret = - EINVAL, ack_size = 8,
                    ack_data = None\<rparr>)]\<rparr>)"
  by (simp add: rprm_cb_def ack_out_error)

lemma cb_request_failure:
  "8 \<le> length data \<Longrightarrow> rpdev_dst s = src \<Longrightarrow> get_u32 data 0 = RPRM_REQUEST \<Longrightarrow>
   rprm_resource_request env s (unat (get_u32 data 4)) (drop 8 data) = (Inl ret, buf, s') \<Longrightarrow>
   rprm_cb env s data src =
     Inr (s'\<lparr>outbox := outbox s' @
            [(src, \<lparr>ack_action = RPRM_REQUEST, ack_ret = ret, ack_size = 8,
                    ack_data = None\<rparr>)]\<rparr>)"
  by (frule request_failure(1)) (simp add: rprm_cb_def ack_out_error)

lemma cb_request_success:
  "8 \<le> length data \<Longrightarrow> rpdev_dst s = src \<Longrightarrow> get_u32 data 0 = RPRM_REQUEST \<Longrightarrow>
   rprm_resource_request env s (unat (get_u32 data 4)) (drop 8 data) = (Inr rid, buf, s') \<Longrightarrow>
   rprm_cb env s data src =
     (if 128 < length data then Inl Stack_overrun
      else Inr (s'\<lparr>outbox := outbox s' @
            [(src, \<lparr>ack_action = RPRM_REQUEST, ack_ret = 0, ack_size = int (length data) + 8,
                    ack_data = Some \<lparr>rack_res_id = rid, rack_data = buf\<rparr>\<rparr>)]\<rparr>))"
  by (auto simp: rprm_cb_def ack_out_def MAX_MSG_def)

lemma cb_release_no_header:
  "4 \<le> length data \<Longrightarrow> length data < 8 \<Longrightarrow> rpdev_dst s = src \<Longrightarrow>
   get_u32 data 0 = RPRM_RELEASE \<Longrightarrow> rprm_cb env s data src = Inr s"
  by (simp add: rprm_cb_def)

lemma cb_release:
  "8 \<le> length data \<Longrightarrow> rpdev_dst s = src \<Longrightarrow> get_u32 data 0 = RPRM_RELEASE \<Longrightarrow>
   rprm_cb env s data src = Inr (snd (rprm_resource_release s (sint (get_u32 data 4))))"
  by (simp add: rprm_cb_def)

lemma cb_unknown_action:
  "4 \<le> length data \<Longrightarrow> rpdev_dst s = src \<Longrightarrow>
   get_u32 data 0 \<noteq> RPRM_REQUEST \<Longrightarrow> get_u32 data 0 \<noteq> RPRM_RELEASE \<Longrightarrow>
   rprm_cb env s data src =
     Inr (s\<lparr>outbox := outbox s @
            [(src, \<lparr>ack_action = get_u32 data 0, ack_ret = - EINVAL, ack_size = 8,
                    ack_data = None\<rparr>)]\<rparr>)"
  by (simp add: rprm_cb_def ack_out_error)

lemma table_in_list_outbox [simp]:
  "table_in_list (s\<lparr>outbox := x\<rparr>) = table_in_list s"
  "addrs_below (s\<lparr>outbox := x\<rparr>) = addrs_below s"
  "list_in_table (s\<lparr>outbox := x\<rparr>) = list_in_table s"
  by (simp_all add: table_in_list_def addrs_below_def list_in_table_def)

lemma cb_paths:
  assumes cb: "rprm_cb env s data src = Inr s'"
  obtains
    (no_change) x where "s' = s\<lparr>outbox := x\<rparr>"
  | (request) r buf s1 x where "8 \<le> length data" "rpdev_dst s = src"
      "get_u32 data 0 = RPRM_REQUEST"
      "rprm_resource_request env s (unat (get_u32 data 4)) (drop 8 data) = (r, buf, s1)"
      "s' = s1\<lparr>outbox := x\<rparr>"
  | (release) "8 \<le> length data" "rpdev_dst s = src" "get_u32 data 0 = RPRM_RELEASE"
      "s' = snd (rprm_resource_release s (sint (get_u32 data 4)))"
proof (cases "length data < 4")
  case True
  with cb have "s' = s\<lparr>outbox := outbox s\<rparr>" by (simp add: cb_no_header)
  then show thesis by (rule no_change)
next
  case len4: False
  show thesis
  proof (cases "rpdev_dst s = src")
    case False
    with cb len4 show thesis by (intro no_change) (auto simp: cb_not_connected)
  next
    case dst: True
    consider (rq) "get_u32 data 0 = RPRM_REQUEST" | (rl) "get_u32 data 0 = RPRM_RELEASE"
      | (un) "get_u32 data 0 \<noteq> RPRM_REQUEST" "get_u32 data 0 \<noteq> RPRM_RELEASE"
      by blast
    then show thesis
    proof cases
      case rq
      show thesis
      proof (cases "length data < 8")
        case True
        with cb len4 dst rq show thesis
          by (intro no_change) (auto simp: cb_request_no_header)
      next
        case len8: False
        obtain r buf s1 where
          req: "rprm_resource_request env s (unat (get_u32 data 4)) (drop 8 data) = (r, buf, s1)"
          by (metis prod_cases3)
        show thesis
        proof (cases r)
          case (Inl ret)
          from cb len8 dst rq req [unfolded Inl] show thesis
            by (intro request [OF _ dst rq req]) (auto simp: cb_request_failure)
        next
          case (Inr rid)
          from cb len8 dst rq req [unfolded Inr] show thesis
            by (intro request [OF _ dst rq req])
              (auto simp: cb_request_success split: if_splits)
        qed
      qed
    next
      case rl
      show thesis
      proof (cases "length data < 8")
        case True
        with cb len4 dst rl have "s' = s\<lparr>outbox := outbox s\<rparr>"
          by (simp add: cb_release_no_header)
        then show thesis by (rule no_change)
      next
        case False
        with cb dst rl show thesis
          by (intro release) (auto simp: cb_release)
      qed
    next
      case un
      with cb len4 dst show thesis
        by (intro no_change) (auto simp: cb_unknown_action)
    qed
  qed
qed

lemma table_in_list_cb:
  assumes inv: "table_in_list s" "addrs_below s"
    and cb: "rprm_cb env s data src = Inr s'"
  shows "table_in_list s' \<and> addrs_below s'"
  using cb
proof (cases rule: cb_paths)
  case (no_change x)
  with inv show ?thesis by simp
next
  case (request r buf s1 x)
  from table_in_list_request [OF inv request(4)] request(5) show ?thesis by simp
next
  case release
  from table_in_list_rprm_release [OF inv] release(4) show ?thesis by simp
qed

lemma table_in_list_run:
  assumes "table_in_list s" "addrs_below s" "rprm_run s ms = Inr s'"
  shows "table_in_list s' \<and> addrs_below s'"
  using assms
proof (induction ms arbitrary: s)
  case Nil
  then show ?case by simp
next
  case (Cons m ms)
  obtain env data src where m: "m = (env, data, src)" by (cases m)
  from Cons.prems(3) obtain s1 where s1: "rprm_cb env s data src = Inr s1" "rprm_run s1 ms = Inr s'"
    by (auto simp: m split: sum.splits)
  from table_in_list_cb [OF Cons.prems(1,2) s1(1)] Cons.IH s1(2) show ?case by blast
qed

lemma table_in_list_fresh: "table_in_list (rprm_fresh m dst d)" "addrs_below (rprm_fresh m dst d)"
  by (simp_all add: table_in_list_def addrs_below_def rprm_fresh_def)

lemma idr_free_id_Nil: "idr_free_id [] = 0"
  by (simp add: idr_free_id_def)

section \<open>Properties of requests and releases\<close>

text \<open>
  C5. A request whose resource index is not below the manager's \<^verbatim>\<open>res_cnt\<close> returns
  \<^verbatim>\<open>-EINVAL\<close>; no driver is called, and neither the idr nor the list gets an entry.
\<close>

theorem request_index_out_of_range:
  assumes "res_cnt (mgr s) \<le> idx"
  shows "fst (rprm_resource_request env s idx data) = Inl (- EINVAL) \<and>
         calls (snd (snd (rprm_resource_request env s idx data))) = calls s \<and>
         id_list (snd (snd (rprm_resource_request env s idx data))) = id_list s \<and>
         res_list (snd (snd (rprm_resource_request env s idx data))) = res_list s"
  by (simp add: request_bad_index [OF assms])

text \<open>An instance: index 2 on a manager with two resources.\<close>

theorem request_index_out_of_range_witness:
  "res_cnt (mgr (rprm_fresh ducati 60 hw0)) \<le> 2 \<and>
   fst (rprm_resource_request kernel_ok (rprm_fresh ducati 60 hw0) 2 [7, 7]) = Inl (- EINVAL) \<and>
   calls (snd (snd (rprm_resource_request kernel_ok (rprm_fresh ducati 60 hw0) 2 [7, 7]))) = [] \<and>
   id_list (snd (snd (rprm_resource_request kernel_ok (rprm_fresh ducati 60 hw0) 2 [7, 7]))) = [] \<and>
   res_list (snd (snd (rprm_resource_request kernel_ok (rprm_fresh ducati 60 hw0) 2 [7, 7]))) = []"
proof -
  have h: "res_cnt (mgr (rprm_fresh ducati 60 hw0)) \<le> 2"
    by (simp add: res_cnt_def rprm_fresh_def ducati_def)
  from request_index_out_of_range [OF h, of kernel_ok "[7, 7]"] h show ?thesis
    by (simp add: rprm_fresh_def)
qed

text \<open>
  C3. On a connection whose idr is empty, a request that succeeds and returns \<open>rid\<close>,
  followed at once by the release of \<open>rid\<close>, leaves the idr empty (whatever the driver's
  release returns).
\<close>

theorem request_then_release_empty:
  assumes "id_list s = []"
    and "rprm_resource_request env s idx data = (Inr rid, buf, s')"
  shows "id_list (snd (rprm_resource_release s' (int rid))) = []"
proof -
  from request_success [OF assms(2)] obtain e where
    e: "rid = idr_free_id (id_list s)" "id_list s' = (rid, e) # id_list s"
    by blast
  have rid: "rid = 0" using e(1) assms(1) by (simp add: idr_free_id_Nil)
  have tbl: "id_list s' = [(0, e)]" using e(2) assms(1) rid by simp
  show ?thesis
    by (simp add: rprm_resource_release_def idr_find_def idr_remove_def idr_key_def tbl rid)
qed

text \<open>An instance: a general purpose timer requested on a new connection.\<close>

theorem request_then_release_empty_witness:
  "id_list (rprm_fresh ducati 60 hw0) = [] \<and>
   fst (rprm_resource_request kernel_ok (rprm_fresh ducati 60 hw0) 0 [3, 0, 0, 0, 1, 0, 0, 0])
     = Inr 0 \<and>
   id_list (snd (rprm_resource_release
      (snd (snd (rprm_resource_request kernel_ok (rprm_fresh ducati 60 hw0) 0
         [3, 0, 0, 0, 1, 0, 0, 0]))) (int 0))) = []"
proof -
  let ?s = "rprm_fresh ducati 60 hw0"
  let ?r = "rprm_resource_request kernel_ok ?s 0 [3, 0, 0, 0, 1, 0, 0, 0]"
  have h: "id_list ?s = []" by (simp add: rprm_fresh_def)
  have r: "fst ?r = Inr 0"
    by (simp add: rprm_resource_request_def rprm_fresh_def ducati_def omap_gptimer_def
        res_cnt_def kernel_ok_def idr_status_def rprm_gptimer_request_def omap4_ducati_gpts_def
        get_u32_def hw0_def
        idr_free_id_def Let_def)
  then have "?r = (Inr 0, fst (snd ?r), snd (snd ?r))"
    by (metis prod.collapse)
  from request_then_release_empty [OF h this] h r show ?thesis by simp
qed

lemma put_u32_length [simp]: "length (put_u32 w) = 4"
  by (simp add: put_u32_def)

section \<open>Properties of the message callback\<close>

text \<open>
  C6. A message that carries the action \<^verbatim>\<open>RPRM_REQUEST\<close> but is too short for the request
  header is answered with an acknowledgement of negative status (\<^verbatim>\<open>-EINVAL\<close>, or
  \<^verbatim>\<open>-ENOTCONN\<close> when it does not come from the remote address of the channel) whose size
  is that of the acknowledgement header alone; apart from the message sent the connection
  is unchanged, so neither the idr nor the list is touched.
\<close>

theorem truncated_request_nack:
  assumes "4 \<le> length data" and "get_u32 data 0 = RPRM_REQUEST" and "length data < 8"
  shows "rprm_cb env s data src =
     Inr (s\<lparr>outbox := outbox s @
            [(src, \<lparr>ack_action = RPRM_REQUEST,
                    ack_ret = (if rpdev_dst s = src then - EINVAL else - ENOTCONN),
                    ack_size = sizeof_rprm_ack, ack_data = None\<rparr>)]\<rparr>)"
proof (cases "rpdev_dst s = src")
  case True
  then show ?thesis using assms by (simp add: cb_request_no_header)
next
  case False
  then show ?thesis using assms by (simp add: cb_not_connected)
qed

text \<open>An instance: a request message of five bytes.\<close>

theorem truncated_request_nack_witness:
  "4 \<le> length [0, 0, 0, 0, 1 :: u8] \<and> get_u32 [0, 0, 0, 0, 1] 0 = RPRM_REQUEST \<and>
   length [0, 0, 0, 0, 1 :: u8] < 8 \<and>
   rprm_cb kernel_ok (rprm_fresh ducati 60 hw0) [0, 0, 0, 0, 1] 60 =
     Inr ((rprm_fresh ducati 60 hw0)\<lparr>outbox :=
            [(60, \<lparr>ack_action = RPRM_REQUEST, ack_ret = - EINVAL,
                   ack_size = sizeof_rprm_ack, ack_data = None\<rparr>)]\<rparr>)"
proof -
  have h: "4 \<le> length [0, 0, 0, 0, 1 :: u8]" "get_u32 [0, 0, 0, 0, 1] 0 = RPRM_REQUEST"
    "length [0, 0, 0, 0, 1 :: u8] < 8"
    by (simp_all add: get_u32_def)
  from truncated_request_nack [OF h, of kernel_ok "rprm_fresh ducati 60 hw0" 60] h
  show ?thesis by (simp add: rprm_fresh_def)
qed

text \<open>
  C7, as the code has it. A message that carries the action \<^verbatim>\<open>RPRM_RELEASE\<close> and comes
  from the remote address of the channel is never acknowledged: whether it is too short,
  names an unknown id, or the driver's release fails or succeeds, nothing is sent.
\<close>

theorem release_never_acked:
  assumes "rpdev_dst s = src" and "4 \<le> length data" and "get_u32 data 0 = RPRM_RELEASE"
  shows "\<exists>s'. rprm_cb env s data src = Inr s' \<and> outbox s' = outbox s"
proof (cases "length data < 8")
  case True
  then show ?thesis using assms by (simp add: cb_release_no_header)
next
  case False
  then have "rprm_cb env s data src = Inr (snd (rprm_resource_release s (sint (get_u32 data 4))))"
    using assms by (simp add: cb_release)
  moreover have "outbox (snd (rprm_resource_release s i)) = outbox s" for i
    by (simp add: rprm_resource_release_def split: option.splits)
  ultimately show ?thesis by simp
qed

text \<open>An instance: the release of an id that was never handed out.\<close>

theorem release_never_acked_witness:
  "rpdev_dst (rprm_fresh ducati 60 hw0) = 60 \<and> 4 \<le> length (release_msg 5) \<and>
   get_u32 (release_msg 5) 0 = RPRM_RELEASE \<and>
   (\<exists>s'. rprm_cb kernel_ok (rprm_fresh ducati 60 hw0) (release_msg 5) 60 = Inr s' \<and>
         outbox s' = outbox (rprm_fresh ducati 60 hw0))"
proof -
  have h: "rpdev_dst (rprm_fresh ducati 60 hw0) = 60" "4 \<le> length (release_msg 5)"
    "get_u32 (release_msg 5) 0 = RPRM_RELEASE"
    by (simp_all add: rprm_fresh_def release_msg_def get_u32_def put_u32_def)
  from release_never_acked [OF h, of kernel_ok] h show ?thesis by simp
qed

text \<open>
  C7 as stated fails: the check of the sender comes before the action is looked at, so a
  release message from another address (61 on a channel connected to 60) is answered with
  an acknowledgement of status \<^verbatim>\<open>-ENOTCONN\<close>.
\<close>

theorem release_never_acked_counterexample:
  "get_u32 (release_msg 0) 0 = RPRM_RELEASE \<and>
   map_sum id outbox (rprm_cb kernel_ok (rprm_fresh ducati 60 hw0) (release_msg 0) 61) =
     Inr [(61, \<lparr>ack_action = RPRM_RELEASE, ack_ret = - ENOTCONN,
                ack_size = sizeof_rprm_ack, ack_data = None\<rparr>)]"
  by (simp add: rprm_cb_def rprm_fresh_def release_msg_def put_u32_def get_u32_def ack_out_def)

text \<open>
  C10, as the code has it. A message that is long enough to hold the message header and
  does not come from the remote address of the channel is answered with an acknowledgement
  of status \<^verbatim>\<open>-ENOTCONN\<close> that consists of the header alone and repeats the action of
  the message, whatever that action is; no request or release is processed (idr, list,
  driver state and driver calls are unchanged).
\<close>

theorem not_connected_nack:
  assumes "4 \<le> length data" and "rpdev_dst s \<noteq> src"
  shows "\<exists>s'. rprm_cb env s data src = Inr s' \<and>
           outbox s' = outbox s @
             [(src, \<lparr>ack_action = get_u32 data 0, ack_ret = - ENOTCONN,
                     ack_size = sizeof_rprm_ack, ack_data = None\<rparr>)] \<and>
           id_list s' = id_list s \<and> res_list s' = res_list s \<and>
           calls s' = calls s \<and> drv s' = drv s"
  by (simp add: cb_not_connected [OF assms])

text \<open>An instance: a well-formed timer request from address 61 on a channel connected to 60.\<close>

theorem not_connected_nack_witness:
  "4 \<le> length (request_msg 0 [3, 0, 0, 0, 1, 0, 0, 0]) \<and>
   rpdev_dst (rprm_fresh ducati 60 hw0) \<noteq> 61 \<and>
   (\<exists>s'. rprm_cb kernel_ok (rprm_fresh ducati 60 hw0)
            (request_msg 0 [3, 0, 0, 0, 1, 0, 0, 0]) 61 = Inr s' \<and>
      outbox s' = [(61, \<lparr>ack_action = RPRM_REQUEST, ack_ret = - ENOTCONN,
                          ack_size = sizeof_rprm_ack, ack_data = None\<rparr>)] \<and>
      id_list s' = [] \<and> res_list s' = [] \<and> calls s' = [] \<and> drv s' = hw0)"
proof -
  have h: "4 \<le> length (request_msg 0 [3, 0, 0, 0, 1, 0, 0, 0])"
    "rpdev_dst (rprm_fresh ducati 60 hw0) \<noteq> 61"
    by (simp_all add: request_msg_def rprm_fresh_def)
  have a: "get_u32 (request_msg 0 [3, 0, 0, 0, 1, 0, 0, 0]) 0 = RPRM_REQUEST"
    by (simp add: request_msg_def put_u32_def get_u32_def)
  from not_connected_nack [OF h, of kernel_ok] h show ?thesis
    by (simp add: a rprm_fresh_def)
qed

text \<open>
  C10 as stated fails for a message shorter than the message header: \<^verbatim>\<open>rprm_cb\<close> returns
  before the sender is checked and nothing is sent.
\<close>

theorem not_connected_nack_counterexample:
  "rpdev_dst (rprm_fresh ducati 60 hw0) \<noteq> 61 \<and>
   map_sum id outbox (rprm_cb kernel_ok (rprm_fresh ducati 60 hw0) [1, 0, 0] 61) = Inr []"
  by (simp add: rprm_cb_def rprm_fresh_def)

lemma args_after_length [simp]: "length (args_after data w) = length data"
  by (simp add: args_after_def)

lemma args_after_same [simp]: "args_after data data = data"
  by (simp add: args_after_def)

lemma request_success_args:
  assumes "rprm_resource_request env s idx data = (Inr rid, buf, s')"
  shows "buf = args_left s idx data"
  using assms
  by (cases rule: request_shape [of s idx env data]) (auto simp: args_left_def)

text \<open>
  C8, as the code has it. Take a request message with both headers, from the remote address
  of the channel. When the request fails the acknowledgement carries the status and is the
  header alone. When it succeeds and the message has at most 128 bytes (so that the
  acknowledgement fits \<^verbatim>\<open>ack_msg\<close>), the acknowledgement carries the resource id and, as
  its data, the argument buffer of the message as the driver's \<^verbatim>\<open>request\<close> left it: as
  many bytes as the request had, and the very bytes of the request when the driver did not
  write to its arguments.
\<close>

theorem request_ack_data:
  assumes "8 \<le> length data" and "get_u32 data 0 = RPRM_REQUEST" and "rpdev_dst s = src"
    and "rprm_resource_request env s (unat (get_u32 data 4)) (drop 8 data) = (r, buf, s')"
  shows "case r of
      Inl ret \<Rightarrow>
        ret \<noteq> 0 \<and>
        rprm_cb env s data src =
          Inr (s'\<lparr>outbox := outbox s' @
                 [(src, \<lparr>ack_action = RPRM_REQUEST, ack_ret = ret,
                         ack_size = sizeof_rprm_ack, ack_data = None\<rparr>)]\<rparr>)
    | Inr rid \<Rightarrow>
        (length data \<le> 128 \<longrightarrow>
           rprm_cb env s data src =
             Inr (s'\<lparr>outbox := outbox s' @
                    [(src, \<lparr>ack_action = RPRM_REQUEST, ack_ret = 0,
                            ack_size = sizeof_rprm_ack + sizeof_rprm_request_ack +
                                       int (length buf),
                            ack_data = Some \<lparr>rack_res_id = rid, rack_data = buf\<rparr>\<rparr>)]\<rparr>)) \<and>
        length buf = length data - 8 \<and>
        buf = args_left s (unat (get_u32 data 4)) (drop 8 data) \<and>
        (args_left s (unat (get_u32 data 4)) (drop 8 data) = drop 8 data \<longrightarrow>
           buf = drop 8 data)"
proof (cases r)
  case (Inl ret)
  from assms(4) [unfolded Inl] have "ret \<noteq> 0" by (rule request_failure(1))
  then show ?thesis
    using cb_request_failure [OF assms(1,3,2) assms(4) [unfolded Inl]] Inl by simp
next
  case (Inr rid)
  have buf: "buf = args_left s (unat (get_u32 data 4)) (drop 8 data)"
    using assms(4) [unfolded Inr] by (rule request_success_args)
  have len: "length buf = length data - 8"
    unfolding buf args_left_def by (simp split: prod.splits)
  show ?thesis
    using cb_request_success [OF assms(1,3,2) assms(4) [unfolded Inr]] assms(1) Inr buf len
    by simp
qed

text \<open>An instance: a timer request; the timer driver does not write to its arguments.\<close>

theorem request_ack_data_witness:
  "8 \<le> length (request_msg 0 [3, 0, 0, 0, 1, 0, 0, 0]) \<and>
   length (request_msg 0 [3, 0, 0, 0, 1, 0, 0, 0]) \<le> 128 \<and>
   get_u32 (request_msg 0 [3, 0, 0, 0, 1, 0, 0, 0]) 0 = RPRM_REQUEST \<and>
   rpdev_dst (rprm_fresh ducati 60 hw0) = 60 \<and>
   fst (rprm_resource_request kernel_ok (rprm_fresh ducati 60 hw0) 0 [3, 0, 0, 0, 1, 0, 0, 0])
     = Inr 0 \<and>
   map_sum id outbox
     (rprm_cb kernel_ok (rprm_fresh ducati 60 hw0) (request_msg 0 [3, 0, 0, 0, 1, 0, 0, 0]) 60) =
     Inr [(60, \<lparr>ack_action = RPRM_REQUEST, ack_ret = 0, ack_size = 24,
                ack_data = Some \<lparr>rack_res_id = 0, rack_data = [3, 0, 0, 0, 1, 0, 0, 0]\<rparr>\<rparr>)]"
proof -
  let ?s = "rprm_fresh ducati 60 hw0"
  let ?m = "request_msg 0 [3, 0, 0, 0, 1, 0, 0, 0]"
  let ?r = "rprm_resource_request kernel_ok ?s 0 [3, 0, 0, 0, 1, 0, 0, 0]"
  have h: "8 \<le> length ?m" "length ?m \<le> 128" "get_u32 ?m 0 = RPRM_REQUEST" "rpdev_dst ?s = 60"
    by (simp_all add: request_msg_def put_u32_def get_u32_def rprm_fresh_def)
  have i: "unat (get_u32 ?m 4) = 0" "drop 8 ?m = [3, 0, 0, 0, 1, 0, 0, 0]"
    by (simp_all add: request_msg_def put_u32_def get_u32_def)
  have r: "?r = (Inr 0, [3, 0, 0, 0, 1, 0, 0, 0],
      ?s\<lparr>drv := hw0\<lparr>timers := [3]\<rparr>, next_addr := 1,
          calls := [Request_call ''omap-gptimer'' [3, 0, 0, 0, 1, 0, 0, 0]],
          id_list := [(0, \<lparr>elem_addr = 0, elem_res = omap_gptimer, elem_handle = 3, elem_id = 0\<rparr>)],
          res_list := [\<lparr>elem_addr = 0, elem_res = omap_gptimer, elem_handle = 3, elem_id = 0\<rparr>]\<rparr>)"
    by (simp add: rprm_resource_request_def rprm_fresh_def ducati_def omap_gptimer_def
        res_cnt_def kernel_ok_def idr_status_def rprm_gptimer_request_def omap4_ducati_gpts_def
        get_u32_def hw0_def
        idr_free_id_def Let_def args_after_def)
  from request_ack_data [OF h(1,3,4), of kernel_ok, unfolded i, OF r] h r show ?thesis
    by (simp add: rprm_fresh_def)
qed

text \<open>
  C8 as stated fails: \<^verbatim>\<open>rprm_sdma_request\<close> writes the channels it obtained into the
  argument buffer, and \<^verbatim>\<open>rprm_cb\<close> copies the buffer after the driver has run. A request
  for two channels with empty slots is acknowledged with channels 5 and 6 in the slots.
\<close>

theorem request_ack_data_counterexample:
  "drop 8 (request_msg 1 [2, 0, 0, 0, 0, 0, 0, 0, 0, 0, 0, 0]) =
     [2, 0, 0, 0, 0, 0, 0, 0, 0, 0, 0, 0] \<and>
   map_sum id outbox
     (rprm_cb kernel_ok (rprm_fresh ducati 60 hw0)
        (request_msg 1 [2, 0, 0, 0, 0, 0, 0, 0, 0, 0, 0, 0]) 60) =
     Inr [(60, \<lparr>ack_action = RPRM_REQUEST, ack_ret = 0, ack_size = 28,
                ack_data = Some \<lparr>rack_res_id = 0,
                                 rack_data = [2, 0, 0, 0, 5, 0, 0, 0, 6, 0, 0, 0]\<rparr>\<rparr>)]"
  by (simp add: rprm_cb_def rprm_resource_request_def rprm_fresh_def ducati_def omap_sdma_def
      omap_gptimer_def res_cnt_def kernel_ok_def idr_status_def rprm_sdma_request_def get_u32_def
      put_u32_def hw0_def idr_free_id_def Let_def args_after_def request_msg_def ack_out_def
      MAX_MSG_def)

section \<open>Teardown and the order of the list\<close>

lemma release_each_calls: "calls (release_each s es) = calls s @ map release_call es"
  by (induction es arbitrary: s) simp_all

lemma remove_calls: "calls (rprm_remove s) = calls s @ map release_call (res_list s)"
  by (simp add: rprm_remove_def release_each_calls)

lemma request_each_Nil_iff: "fst (request_each s rs) = [] \<longleftrightarrow> rs = []"
  by (cases rs) (auto split: prod.splits)

lemma request_each_lists:
  assumes "fst (request_each s rs) = map Inr ids"
  shows "\<exists>es. res_list (snd (request_each s rs)) = es @ res_list s \<and>
              map elem_id es = rev ids \<and>
              map fst (id_list (snd (request_each s rs))) = rev ids @ map fst (id_list s)"
  using assms
proof (induction rs arbitrary: s ids)
  case Nil
  then show ?case by simp
next
  case (Cons q rs)
  obtain env idx data where q: "q = (env, idx, data)" by (cases q)
  obtain r buf s1 where req: "rprm_resource_request env s idx data = (r, buf, s1)"
    by (metis prod_cases3)
  obtain res s2 where rest: "request_each s1 rs = (res, s2)"
    by (cases "request_each s1 rs")
  from Cons.prems have all: "r # res = map Inr ids"
    by (simp add: q req rest)
  then obtain rid ids' where ids: "ids = rid # ids'" "r = Inr rid" "res = map Inr ids'"
    by (cases ids) auto
  from request_success [OF req [unfolded ids(2)]] obtain e where
    e: "elem_id e = rid" "res_list s1 = e # res_list s" "id_list s1 = (rid, e) # id_list s"
    by blast
  from Cons.IH [of s1 ids'] rest ids(3) obtain es where
    es: "res_list s2 = es @ res_list s1" "map elem_id es = rev ids'"
      "map fst (id_list s2) = rev ids' @ map fst (id_list s1)"
    by auto
  have "snd (request_each s (q # rs)) = s2"
    by (simp add: q req rest)
  with es e ids(1) show ?case
    by (intro exI [where x = "es @ [e]"]) simp
qed

lemma two_timers_run:
  "request_each (rprm_fresh ducati 60 hw0) two_timers =
   ([Inr 0, Inr 1],
    \<lparr>res_list = [\<lparr>elem_addr = 1, elem_res = omap_gptimer, elem_handle = 4, elem_id = 1\<rparr>,
                 \<lparr>elem_addr = 0, elem_res = omap_gptimer, elem_handle = 3, elem_id = 0\<rparr>],
     id_list = [(1, \<lparr>elem_addr = 1, elem_res = omap_gptimer, elem_handle = 4, elem_id = 1\<rparr>),
                (0, \<lparr>elem_addr = 0, elem_res = omap_gptimer, elem_handle = 3, elem_id = 0\<rparr>)],
     mgr = ducati, rpdev_dst = 60, drv = hw0\<lparr>timers := [4, 3]\<rparr>,
     calls = [Request_call ''omap-gptimer'' (gpt_args 3),
              Request_call ''omap-gptimer'' (gpt_args 4)],
     outbox = [], next_addr = 2\<rparr>)"
  by (simp add: two_timers_def gpt_args_def rprm_resource_request_def rprm_fresh_def ducati_def
      omap_gptimer_def res_cnt_def kernel_ok_def idr_status_def rprm_gptimer_request_def
      omap4_ducati_gpts_def
      get_u32_def hw0_def idr_free_id_def Let_def args_after_def)

text \<open>
  C1, as the code has it. \<^verbatim>\<open>rprm_remove\<close> calls the driver's release once for every node
  of the list, from the head of the list on. \<^verbatim>\<open>list_add\<close> puts each new element at the
  head, so after requests that succeeded with ids \<open>ids\<close> (in this order) the list starts with
  their elements in reverse order: the resources are released newest first, the reverse of
  the order in which they were acquired.
\<close>

theorem teardown_releases_newest_first:
  assumes "fst (request_each s rs) = map Inr ids"
  shows "calls (rprm_remove (snd (request_each s rs))) =
           calls (snd (request_each s rs)) @ map release_call (res_list (snd (request_each s rs))) \<and>
         (\<exists>es. res_list (snd (request_each s rs)) = es @ res_list s \<and>
               map elem_id es = rev ids)"
  using request_each_lists [OF assms] by (auto simp: remove_calls)

text \<open>An instance: timer 3, then timer 4, then the teardown.\<close>

theorem teardown_releases_newest_first_witness:
  "fst (request_each (rprm_fresh ducati 60 hw0) two_timers) = map Inr [0, 1] \<and>
   calls (rprm_remove (snd (request_each (rprm_fresh ducati 60 hw0) two_timers))) =
     [Request_call ''omap-gptimer'' (gpt_args 3), Request_call ''omap-gptimer'' (gpt_args 4),
      Release_call ''omap-gptimer'' 4, Release_call ''omap-gptimer'' 3] \<and>
   map elem_id (res_list (snd (request_each (rprm_fresh ducati 60 hw0) two_timers))) =
     rev [0, 1]"
proof -
  have h: "fst (request_each (rprm_fresh ducati 60 hw0) two_timers) = map Inr [0, 1]"
    by (simp add: two_timers_run)
  from teardown_releases_newest_first [OF h] h show ?thesis
    by (simp add: two_timers_run release_call_def omap_gptimer_def)
qed

text \<open>
  C1 as stated fails: timer 3 is acquired before timer 4, and the teardown releases
  timer 4 before timer 3, not in the order of acquisition.
\<close>

theorem teardown_order_counterexample:
  "fst (request_each (rprm_fresh ducati 60 hw0) two_timers) = [Inr 0, Inr 1] \<and>
   map elem_handle (res_list (snd (request_each (rprm_fresh ducati 60 hw0) two_timers))) =
     [4, 3] \<and>
   calls (rprm_remove (snd (request_each (rprm_fresh ducati 60 hw0) two_timers))) =
     [Request_call ''omap-gptimer'' (gpt_args 3), Request_call ''omap-gptimer'' (gpt_args 4),
      Release_call ''omap-gptimer'' 4, Release_call ''omap-gptimer'' 3] \<and>
   calls (rprm_remove (snd (request_each (rprm_fresh ducati 60 hw0) two_timers))) \<noteq>
     [Request_call ''omap-gptimer'' (gpt_args 3), Request_call ''omap-gptimer'' (gpt_args 4),
      Release_call ''omap-gptimer'' 3, Release_call ''omap-gptimer'' 4]"
  by (simp add: two_timers_run remove_calls release_call_def omap_gptimer_def)

section \<open>Resource ids\<close>

lemma request_each_Cons:
  "fst (request_each s ((env, idx, data) # rs)) =
     fst (rprm_resource_request env s idx data) #
     fst (request_each (snd (snd (rprm_resource_request env s idx data))) rs)"
  "snd (request_each s ((env, idx, data) # rs)) =
     snd (request_each (snd (snd (rprm_resource_request env s idx data))) rs)"
  by (simp_all add: split_beta)

lemma table_in_list_request_each:
  assumes "table_in_list s" "addrs_below s"
  shows "table_in_list (snd (request_each s rs)) \<and> addrs_below (snd (request_each s rs))"
  using assms
proof (induction rs arbitrary: s)
  case Nil
  then show ?case by simp
next
  case (Cons q rs)
  obtain env idx data where q: "q = (env, idx, data)" by (cases q)
  obtain r buf s1 where req: "rprm_resource_request env s idx data = (r, buf, s1)"
    by (metis prod_cases3)
  from table_in_list_request [OF Cons.prems req] Cons.IH [of s1]
  show ?case by (simp add: q req request_each_Cons del: request_each.simps(2))
qed

lemma request_each_length: "length (fst (request_each s rs)) = length rs"
  by (induction rs arbitrary: s) (auto simp: request_each_Cons simp del: request_each.simps(2))

lemma timer9_run:
  "rprm_run (rprm_fresh ducati 60 hw0) timer9_msgs =
   Inr \<lparr>res_list = [\<lparr>elem_addr = 0, elem_res = omap_gptimer, elem_handle = 9, elem_id = 0\<rparr>],
        id_list = [(0, \<lparr>elem_addr = 0, elem_res = omap_gptimer, elem_handle = 9, elem_id = 0\<rparr>)],
        mgr = ducati, rpdev_dst = 60, drv = hw0\<lparr>timers := [9]\<rparr>,
        calls = [Request_call ''omap-gptimer'' (gpt_args 9)],
        outbox = [(60, \<lparr>ack_action = RPRM_REQUEST, ack_ret = 0, ack_size = 24,
                         ack_data = Some \<lparr>rack_res_id = 0, rack_data = gpt_args 9\<rparr>\<rparr>)],
        next_addr = 1\<rparr>"
  by (simp add: timer9_msgs_def gpt_args_def rprm_cb_def rprm_resource_request_def rprm_fresh_def ducati_def
      omap_gptimer_def res_cnt_def kernel_ok_def idr_status_def rprm_gptimer_request_def
      omap4_ducati_gpts_def
      get_u32_def put_u32_def hw0_def idr_free_id_def Let_def args_after_def request_msg_def
      ack_out_def MAX_MSG_def)

text \<open>
  The ids the idr holds. In every state a connection reaches from \<^verbatim>\<open>rprm_probe\<close> through
  any messages, the ids in the idr are pairwise distinct and each element carries the id it
  is stored under. Requests made one after the other from such a state, all of them
  successful and with no release in between, return as many ids as there were requests,
  pairwise distinct and different from the ids in the idr.
\<close>

lemma idr_ids_distinct:
  assumes "rprm_run (rprm_fresh m dst d) ms = Inr s"
    and "fst (request_each s rs) = map Inr ids"
  shows "distinct (map fst (id_list s)) \<and>
         (\<forall>(k, e) \<in> set (id_list s). elem_id e = k) \<and>
         distinct ids \<and> length ids = length rs \<and>
         set ids \<inter> fst ` set (id_list s) = {}"
proof -
  from table_in_list_run [OF table_in_list_fresh assms(1)]
  have inv: "table_in_list s" "addrs_below s" by simp_all
  from table_in_list_request_each [OF inv, of rs]
  have "distinct (map fst (id_list (snd (request_each s rs))))"
    by (simp add: table_in_list_def)
  moreover from request_each_lists [OF assms(2)]
  have "map fst (id_list (snd (request_each s rs))) = rev ids @ map fst (id_list s)"
    by blast
  ultimately have "distinct ids" "set ids \<inter> fst ` set (id_list s) = {}"
    by auto
  moreover have "length ids = length rs"
    using request_each_length [of s rs] assms(2) by simp
  ultimately show ?thesis using inv(1) by (auto simp: table_in_list_def)
qed

text \<open>An instance: timer 9 is held under id 0; timers 3 and 4 then get ids 1 and 2.\<close>

lemma idr_ids_distinct_instance:
  "rprm_run (rprm_fresh ducati 60 hw0) timer9_msgs =
     Inr (projr (rprm_run (rprm_fresh ducati 60 hw0) timer9_msgs)) \<and>
   fst (request_each (projr (rprm_run (rprm_fresh ducati 60 hw0) timer9_msgs)) two_timers) =
     map Inr [1, 2] \<and>
   map fst (id_list (projr (rprm_run (rprm_fresh ducati 60 hw0) timer9_msgs))) = [0] \<and>
   distinct [1, 2 :: nat] \<and> length [1, 2 :: nat] = length two_timers"
proof -
  let ?run = "rprm_run (rprm_fresh ducati 60 hw0) timer9_msgs"
  have h1: "?run = Inr (projr ?run)"
    by (simp only: timer9_run sum.sel)
  have h2: "fst (request_each (projr ?run) two_timers) = map Inr [1, 2]"
    by (simp only: timer9_run sum.sel)
      (simp add: two_timers_def gpt_args_def rprm_resource_request_def ducati_def
        omap_gptimer_def res_cnt_def kernel_ok_def idr_status_def rprm_gptimer_request_def
        omap4_ducati_gpts_def
        get_u32_def hw0_def idr_free_id_def Let_def args_after_def)
  have h3: "map fst (id_list (projr ?run)) = [0]"
    by (simp only: timer9_run sum.sel) simp
  from idr_ids_distinct [OF h1 h2] h1 h2 h3 show ?thesis
    by (simp add: two_timers_def)
qed



section \<open>Consistency of idr and list\<close>

lemma release_ok:
  "releases_succeed m \<Longrightarrow> elem_res e \<in> set (resources m) \<Longrightarrow>
   fst (res_release (elem_res e) d (elem_handle e)) = 0"
  by (simp add: releases_succeed_def)

lemma resource_release_mgr_drv [simp]:
  "res_of_mgr (s\<lparr>id_list := x\<rparr>) = res_of_mgr s"
  by (simp add: res_of_mgr_def)

lemma list_in_table_release:
  assumes inv: "table_in_list s" "list_in_table s" "res_of_mgr s"
    and ok: "releases_succeed (mgr s)"
    and f: "map_of (id_list s) k = Some e"
  shows "list_in_table (snd (resource_release (s\<lparr>id_list := filter (\<lambda>p. fst p \<noteq> k) (id_list s)\<rparr>) e))
       \<and> res_of_mgr (snd (resource_release (s\<lparr>id_list := filter (\<lambda>p. fst p \<noteq> k) (id_list s)\<rparr>) e))"
proof -
  let ?s1 = "s\<lparr>id_list := filter (\<lambda>p. fst p \<noteq> k) (id_list s)\<rparr>"
  let ?s2 = "snd (resource_release ?s1 e)"
  have ke: "(k, e) \<in> set (id_list s)" using f by (rule map_of_SomeD)
  then have e: "e \<in> set (res_list s)" "elem_id e = k"
    using inv(1) by (auto simp: table_in_list_def)
  then have "elem_res e \<in> set (resources (mgr s))"
    using inv(3) by (simp add: res_of_mgr_def)
  then have "fst (res_release (elem_res e) (drv ?s1) (elem_handle e)) = 0"
    by (rule release_ok [OF ok])
  then have l2: "res_list ?s2 = filter (\<lambda>x. elem_addr x \<noteq> elem_addr e) (res_list s)"
    by (simp add: resource_release_list_ok)
  have "(elem_id e', e') \<in> set (id_list ?s2)"
    if "e' \<in> set (res_list s)" "elem_addr e' \<noteq> elem_addr e" for e'
  proof -
    have in_tbl: "(elem_id e', e') \<in> set (id_list s)"
      using inv(2) that(1) by (simp add: list_in_table_def)
    have "elem_id e' \<noteq> k"
    proof
      assume "elem_id e' = k"
      with in_tbl ke inv(1) have "e' = e"
        by (auto simp: table_in_list_def dest: eq_key_imp_eq_value)
      with that(2) show False by simp
    qed
    with in_tbl show ?thesis by simp
  qed
  then have "list_in_table ?s2"
    by (simp add: list_in_table_def l2)
  moreover have "res_of_mgr ?s2"
    using inv(3) by (simp add: res_of_mgr_def l2)
  ultimately show ?thesis by simp
qed

lemma list_in_table_rprm_release:
  assumes inv: "table_in_list s" "list_in_table s" "res_of_mgr s"
    and ok: "releases_succeed (mgr s)"
  shows "list_in_table (snd (rprm_resource_release s i)) \<and>
         res_of_mgr (snd (rprm_resource_release s i))"
proof (cases "idr_find (id_list s) i")
  case None
  then show ?thesis using inv by (simp add: rprm_resource_release_def)
next
  case (Some e)
  have eq: "rprm_resource_release s i =
      resource_release (s\<lparr>id_list := filter (\<lambda>p. fst p \<noteq> idr_key i) (id_list s)\<rparr>) e"
    using Some by (simp add: rprm_resource_release_def idr_remove_def)
  have mo: "map_of (id_list s) (idr_key i) = Some e"
    using Some by (simp add: idr_find_def)
  from list_in_table_release [OF inv ok mo] show ?thesis by (simp add: eq)
qed

lemma list_in_table_request:
  assumes inv: "list_in_table s" "res_of_mgr s"
    and req: "rprm_resource_request env s idx data = (r, buf, s')"
  shows "list_in_table s' \<and> res_of_mgr s'"
proof (cases r)
  case (Inl ret)
  from request_failure [OF req [unfolded Inl]] request_fields(1) [OF req] inv show ?thesis
    by (simp add: list_in_table_def res_of_mgr_def)
next
  case (Inr rid)
  from request_success [OF req [unfolded Inr]]
  obtain e where e: "elem_id e = rid" "idx < res_cnt (mgr s)"
    "elem_res e = resources (mgr s) ! idx"
    "res_list s' = e # res_list s" "id_list s' = (rid, e) # id_list s"
    by blast
  from e(2,3) have "elem_res e \<in> set (resources (mgr s))"
    by (simp add: res_cnt_def)
  with e request_fields(1) [OF req] inv show ?thesis
    by (auto simp: list_in_table_def res_of_mgr_def)
qed

lemma rprm_release_mgr [simp]: "mgr (snd (rprm_resource_release s i)) = mgr s"
  by (simp add: rprm_resource_release_def split: option.splits)

lemma cb_mgr:
  assumes "rprm_cb env s data src = Inr s'"
  shows "mgr s' = mgr s"
  using assms
  by (cases rule: cb_paths) (auto dest: request_fields(1))

lemma list_in_table_cb:
  assumes inv: "table_in_list s" "list_in_table s" "res_of_mgr s"
    and ok: "releases_succeed (mgr s)"
    and cb: "rprm_cb env s data src = Inr s'"
  shows "list_in_table s' \<and> res_of_mgr s'"
  using cb
proof (cases rule: cb_paths)
  case (no_change x)
  with inv show ?thesis by (simp add: res_of_mgr_def)
next
  case (request r buf s1 x)
  from list_in_table_request [OF inv(2,3) request(4)] request(5) show ?thesis
    by (simp add: res_of_mgr_def)
next
  case release
  from list_in_table_rprm_release [OF inv ok] release(4) show ?thesis by simp
qed

lemma list_in_table_run:
  assumes "table_in_list s" "addrs_below s" "list_in_table s" "res_of_mgr s"
    and "releases_succeed (mgr s)" and "rprm_run s ms = Inr s'"
  shows "list_in_table s' \<and> res_of_mgr s' \<and> mgr s' = mgr s"
  using assms
proof (induction ms arbitrary: s)
  case Nil
  then show ?case by simp
next
  case (Cons q ms)
  obtain env data src where q: "q = (env, data, src)" by (cases q)
  from Cons.prems(6) obtain s1 where
    s1: "rprm_cb env s data src = Inr s1" "rprm_run s1 ms = Inr s'"
    by (auto simp: q split: sum.splits)
  note m = cb_mgr [OF s1(1)]
  from table_in_list_cb [OF Cons.prems(1,2) s1(1)]
    list_in_table_cb [OF Cons.prems(1,3,4,5) s1(1)]
    Cons.IH [of s1] s1(2) Cons.prems(5) m
  show ?case by simp
qed

lemma release_each_all:
  assumes "releases_succeed m" and "\<forall>e \<in> set es. elem_res e \<in> set (resources m)"
  shows "res_list (release_each s es) =
         filter (\<lambda>x. elem_addr x \<notin> elem_addr ` set es) (res_list s)"
  using assms(2)
proof (induction es arbitrary: s)
  case Nil
  then show ?case by simp
next
  case (Cons e es)
  have "fst (res_release (elem_res e) (drv s) (elem_handle e)) = 0"
    using Cons.prems by (intro release_ok [OF assms(1)]) simp
  then have "res_list (snd (resource_release s e)) =
      filter (\<lambda>x. elem_addr x \<noteq> elem_addr e) (res_list s)"
    by (rule resource_release_list_ok)
  with Cons.IH [of "snd (resource_release s e)"] Cons.prems show ?case
    by (auto intro: filter_cong)
qed

lemma remove_all:
  assumes "releases_succeed (mgr s)" "res_of_mgr s"
  shows "res_list (rprm_remove s) = []" "id_list (rprm_remove s) = []"
proof -
  have "res_list (release_each s (res_list s)) = []"
    using assms(2) by (subst release_each_all [OF assms(1)]) (auto simp: res_of_mgr_def)
  then show "res_list (rprm_remove s) = []" by (simp add: rprm_remove_def)
  show "id_list (rprm_remove s) = []" by (simp add: rprm_remove_def)
qed

lemma releases_succeed_ducati: "releases_succeed ducati"
  by (simp add: releases_succeed_def ducati_def omap_gptimer_def omap_sdma_def
      rprm_gptimer_release_def rprm_sdma_release_def split: option.splits)

lemma timer9_release_run:
  "rprm_run (rprm_fresh ducati 60 hw0) timer_msgs =
   Inr \<lparr>res_list = [\<lparr>elem_addr = 1, elem_res = omap_gptimer, elem_handle = 4, elem_id = 1\<rparr>],
        id_list = [(1, \<lparr>elem_addr = 1, elem_res = omap_gptimer, elem_handle = 4, elem_id = 1\<rparr>)],
        mgr = ducati, rpdev_dst = 60, drv = hw0\<lparr>timers := [4]\<rparr>,
        calls = [Request_call ''omap-gptimer'' (gpt_args 9),
                 Request_call ''omap-gptimer'' (gpt_args 4),
                 Release_call ''omap-gptimer'' 9],
        outbox = [(60, \<lparr>ack_action = RPRM_REQUEST, ack_ret = 0, ack_size = 24,
                         ack_data = Some \<lparr>rack_res_id = 0, rack_data = gpt_args 9\<rparr>\<rparr>),
                  (60, \<lparr>ack_action = RPRM_REQUEST, ack_ret = 0, ack_size = 24,
                         ack_data = Some \<lparr>rack_res_id = 1, rack_data = gpt_args 4\<rparr>\<rparr>)],
        next_addr = 2\<rparr>"
  by (simp add: timer_msgs_def gpt_args_def rprm_cb_def rprm_resource_request_def rprm_fresh_def ducati_def
      omap_gptimer_def res_cnt_def kernel_ok_def idr_status_def rprm_gptimer_request_def
      omap4_ducati_gpts_def
      get_u32_def put_u32_def hw0_def idr_free_id_def Let_def args_after_def request_msg_def
      release_msg_def ack_out_def MAX_MSG_def rprm_resource_release_def resource_release_def
      idr_find_def idr_remove_def idr_key_def rprm_gptimer_release_def)

lemma stuck_run:
  "rprm_run (rprm_fresh stuck_mgr 60 hw0) stuck_msgs =
   Inr \<lparr>res_list = [\<lparr>elem_addr = 0, elem_res = stuck_timer, elem_handle = 3, elem_id = 0\<rparr>],
        id_list = [],
        mgr = stuck_mgr, rpdev_dst = 60, drv = hw0\<lparr>timers := [3]\<rparr>,
        calls = [Request_call ''stuck-timer'' (gpt_args 3), Release_call ''stuck-timer'' 3],
        outbox = [(60, \<lparr>ack_action = RPRM_REQUEST, ack_ret = 0, ack_size = 24,
                         ack_data = Some \<lparr>rack_res_id = 0, rack_data = gpt_args 3\<rparr>\<rparr>)],
        next_addr = 1\<rparr>"
  by (simp add: stuck_msgs_def gpt_args_def rprm_cb_def rprm_resource_request_def rprm_fresh_def stuck_mgr_def
      stuck_timer_def res_cnt_def kernel_ok_def idr_status_def rprm_gptimer_request_def
      omap4_ducati_gpts_def
      get_u32_def put_u32_def hw0_def idr_free_id_def Let_def args_after_def request_msg_def
      release_msg_def ack_out_def MAX_MSG_def rprm_resource_release_def resource_release_def
      idr_find_def idr_remove_def idr_key_def stuck_release_def)

text \<open>
  C2, as the code has it. In every state a connection reaches from \<^verbatim>\<open>rprm_probe\<close> through
  any messages (whatever the drivers and the kernel answer), every id of the idr has
  exactly one node in the list: ids are distinct, nodes are distinct, and the element
  stored under an id is a node of the list carrying that id. When the drivers of the
  manager never fail to release, also every node of the list is stored in the idr under its
  id, and the teardown leaves both empty.
\<close>

theorem table_list_consistent:
  assumes "rprm_run (rprm_fresh m dst d) ms = Inr s"
  shows "table_in_list s \<and>
         (releases_succeed m \<longrightarrow>
            list_in_table s \<and> res_list (rprm_remove s) = [] \<and> id_list (rprm_remove s) = [])"
proof -
  let ?f = "rprm_fresh m dst d"
  from table_in_list_run [OF table_in_list_fresh assms]
  have t: "table_in_list s" by simp
  have f: "list_in_table ?f" "res_of_mgr ?f" "mgr ?f = m"
    by (simp_all add: list_in_table_def res_of_mgr_def rprm_fresh_def)
  have "list_in_table s \<and> res_list (rprm_remove s) = [] \<and> id_list (rprm_remove s) = []"
    if ok: "releases_succeed m"
  proof -
    from list_in_table_run [OF table_in_list_fresh f(1,2) _ assms] ok f(3)
    have l: "list_in_table s" "res_of_mgr s" "mgr s = m" by simp_all
    with remove_all [of s] ok show ?thesis by simp
  qed
  with t show ?thesis by simp
qed

text \<open>An instance: timers 9 and 4 requested, id 0 released, on a manager whose drivers release.\<close>

theorem table_list_consistent_witness:
  "rprm_run (rprm_fresh ducati 60 hw0) timer_msgs =
     Inr (projr (rprm_run (rprm_fresh ducati 60 hw0) timer_msgs)) \<and>
   releases_succeed ducati \<and>
   table_in_list (projr (rprm_run (rprm_fresh ducati 60 hw0) timer_msgs)) \<and>
   list_in_table (projr (rprm_run (rprm_fresh ducati 60 hw0) timer_msgs)) \<and>
   map fst (id_list (projr (rprm_run (rprm_fresh ducati 60 hw0) timer_msgs))) = [1] \<and>
   res_list (rprm_remove (projr (rprm_run (rprm_fresh ducati 60 hw0) timer_msgs))) = []"
proof -
  let ?run = "rprm_run (rprm_fresh ducati 60 hw0) timer_msgs"
  have h: "?run = Inr (projr ?run)"
    by (simp only: timer9_release_run sum.sel)
  have k: "map fst (id_list (projr ?run)) = [1]"
    by (simp only: timer9_release_run sum.sel) simp
  from table_list_consistent [OF h] releases_succeed_ducati h k show ?thesis
    by simp
qed

text \<open>
  C2 as stated fails when a driver's release returns an error: \<^verbatim>\<open>rprm_resource_release\<close>
  has removed the id from the idr by then, and \<^verbatim>\<open>_resource_release\<close> returns before
  \<^verbatim>\<open>list_del\<close>. The node stays in the list with no id in the idr.
\<close>

theorem table_list_consistent_counterexample:
  "map_sum id id_list
     (rprm_run (rprm_fresh stuck_mgr 60 hw0) stuck_msgs) = Inr [] \<and>
   map_sum id (map elem_id \<circ> res_list)
     (rprm_run (rprm_fresh stuck_mgr 60 hw0) stuck_msgs) = Inr [0] \<and>
   map_sum id list_in_table
     (rprm_run (rprm_fresh stuck_mgr 60 hw0) stuck_msgs) = Inr False"
  by (simp add: stuck_run list_in_table_def)

section \<open>Managers and the module reference count\<close>

lemma find_mgr_None: "find_mgr_by_name tbl n = None \<Longrightarrow> n \<notin> mgr_name ` set tbl"
  by (auto simp: find_mgr_by_name_def find_None_iff)

lemma find_mgr_Some: "find_mgr_by_name tbl n = Some m \<Longrightarrow> m \<in> set tbl \<and> mgr_name m = n"
  by (auto simp: find_mgr_by_name_def find_Some_iff)

lemma distinct_map_remove1: "distinct (map f xs) \<Longrightarrow> distinct (map f (remove1 x xs))"
proof (induction xs)
  case Nil
  then show ?case by simp
next
  case (Cons y ys)
  have "set (remove1 x ys) \<subseteq> set ys" by (rule set_remove1_subset)
  with Cons show ?case by auto
qed

lemma conns_of_append:
  "conns_of (sys\<lparr>conns := conns sys @ [c]\<rparr>) ow =
     conns_of sys ow + (if mgr_owner (mgr c) = ow then 1 else 0)"
  by (simp add: conns_of_def)

lemma conns_of_drop:
  assumes "i < length (conns sys)"
  shows "conns_of sys ow =
     conns_of (sys\<lparr>conns := take i (conns sys) @ drop (Suc i) (conns sys)\<rparr>) ow +
       (if mgr_owner (mgr (conns sys ! i)) = ow then 1 else 0)"
proof -
  have "conns sys = take i (conns sys) @ conns sys ! i # drop (Suc i) (conns sys)"
    using assms by (rule id_take_nth_drop)
  then have "filter (\<lambda>c. mgr_owner (mgr c) = ow) (conns sys) =
      filter (\<lambda>c. mgr_owner (mgr c) = ow) (take i (conns sys) @ conns sys ! i # drop (Suc i) (conns sys))"
    by simp
  then show ?thesis by (simp add: conns_of_def)
qed

lemma conns_of_update:
  assumes "i < length (conns sys)" "mgr c = mgr (conns sys ! i)"
  shows "conns_of (sys\<lparr>conns := (conns sys)[i := c]\<rparr>) ow = conns_of sys ow"
proof -
  have eq: "map mgr ((conns sys)[i := c]) = map mgr (conns sys)"
    using assms by (simp add: map_update list_update_same_conv)
  have a: "conns_of (sys\<lparr>conns := (conns sys)[i := c]\<rparr>) ow =
      length (filter (\<lambda>m. mgr_owner m = ow) (map mgr ((conns sys)[i := c])))"
    by (simp add: conns_of_def filter_map comp_def)
  have b: "conns_of sys ow = length (filter (\<lambda>m. mgr_owner m = ow) (map mgr (conns sys)))"
    by (simp add: conns_of_def filter_map comp_def)
  show ?thesis unfolding a b eq ..
qed

lemma conns_of_fields [simp]:
  "conns_of (sys\<lparr>mgr_table := t\<rparr>) = conns_of sys"
  "conns_of (sys\<lparr>module_refcount := r\<rparr>) = conns_of sys"
  by (simp_all add: conns_of_def fun_eq_iff)

lemma conns_of_pos:
  "c \<in> set (conns sys) \<Longrightarrow> 0 < conns_of sys (mgr_owner (mgr c))"
  by (auto simp: conns_of_def filter_empty_conv)

lemma sys_ok_register:
  assumes "sys_ok sys"
  shows "sys_ok (snd (rprm_manager_register sys m))"
proof (cases "find_mgr_by_name (mgr_table sys) (mgr_name m)")
  case None
  from find_mgr_None [OF None] assms show ?thesis
    by (auto simp: rprm_manager_register_def None sys_ok_def)
next
  case (Some a)
  with assms show ?thesis by (simp add: rprm_manager_register_def)
qed

lemma sys_ok_unregister:
  assumes "sys_ok sys"
  shows "sys_ok (snd (rprm_manager_unregister sys m))"
proof (cases "module_refcount sys (mgr_owner m) = 0")
  case False
  with assms show ?thesis by (simp add: rprm_manager_unregister_def)
next
  case True
  have "mgr c \<noteq> m" if "c \<in> set (conns sys)" for c
    using conns_of_pos [OF that] assms True by (auto simp: sys_ok_def)
  then have "mgr c \<in> set (remove1 m (mgr_table sys))" if "c \<in> set (conns sys)" for c
    using that assms by (auto simp: sys_ok_def)
  with assms True show ?thesis
    by (simp add: rprm_manager_unregister_def sys_ok_def distinct_map_remove1)
qed

lemma sys_ok_probe:
  assumes "sys_ok sys"
  shows "sys_ok (snd (rprm_probe sys n dst d get_ok kmalloc_ok))"
proof (cases "find_mgr_by_name (mgr_table sys) n")
  case None
  with assms show ?thesis by (simp add: rprm_probe_def)
next
  case (Some m)
  show ?thesis
  proof (cases "get_ok \<and> kmalloc_ok")
    case False
    with assms Some show ?thesis by (auto simp: rprm_probe_def)
  next
    case True
    let ?sys' = "sys\<lparr>module_refcount :=
                       (module_refcount sys)(mgr_owner m := Suc (module_refcount sys (mgr_owner m))),
                     conns := conns sys @ [rprm_fresh m dst d]\<rparr>"
    have eq: "snd (rprm_probe sys n dst d get_ok kmalloc_ok) = ?sys'"
      using True Some by (simp add: rprm_probe_def)
    have m: "m \<in> set (mgr_table sys)" using find_mgr_Some [OF Some] by simp
    have f: "mgr (rprm_fresh m dst d) = m" by (simp add: rprm_fresh_def)
    have "conns_of ?sys' ow = module_refcount ?sys' ow" for ow
      using assms by (simp add: conns_of_def sys_ok_def f)
    then show ?thesis
      unfolding eq using assms m f by (simp add: sys_ok_def)
  qed
qed

lemma remove_mgr [simp]: "mgr (rprm_remove s) = mgr s"
proof -
  have "mgr (release_each s es) = mgr s" for es
    by (induction es arbitrary: s) simp_all
  then show ?thesis by (simp add: rprm_remove_def)
qed

lemma sys_ok_remove:
  assumes "sys_ok sys"
  shows "sys_ok (rprm_remove_channel sys i)"
proof (cases "i < length (conns sys)")
  case False
  with assms show ?thesis by (simp add: rprm_remove_channel_def)
next
  case True
  let ?ow = "mgr_owner (mgr (conns sys ! i))"
  let ?cs = "take i (conns sys) @ drop (Suc i) (conns sys)"
  let ?sys' = "sys\<lparr>module_refcount := (module_refcount sys)(?ow := module_refcount sys ?ow - 1),
                   conns := ?cs\<rparr>"
  have eq: "rprm_remove_channel sys i = ?sys'"
    using True by (simp add: rprm_remove_channel_def Let_def)
  have cnt: "module_refcount ?sys' ow = conns_of ?sys' ow" for ow
    using assms conns_of_drop [OF True, of ow]
    by (auto simp: sys_ok_def conns_of_def)
  have "set ?cs \<subseteq> set (conns sys)"
    by (auto dest: in_set_takeD in_set_dropD)
  with assms have "\<forall>c \<in> set (conns ?sys'). mgr c \<in> set (mgr_table ?sys')"
    by (auto simp: sys_ok_def)
  with cnt assms show ?thesis
    unfolding eq sys_ok_def by simp
qed

lemma sys_ok_message:
  assumes "sys_ok sys" and "sys_step sys (Message i env data src) = Inr sys'"
  shows "sys_ok sys'"
proof (cases "i < length (conns sys)")
  case False
  with assms show ?thesis by simp
next
  case True
  with assms(2) obtain c where c: "rprm_cb env (conns sys ! i) data src = Inr c"
    "sys' = sys\<lparr>conns := (conns sys)[i := c]\<rparr>"
    by (auto split: sum.splits)
  have m: "mgr c = mgr (conns sys ! i)" using c(1) by (rule cb_mgr)
  have "mgr x \<in> set (mgr_table sys)" if "x \<in> set ((conns sys)[i := c])" for x
  proof -
    from that have "x = c \<or> x \<in> set (conns sys)"
      by (auto dest: set_update_subset_insert [THEN subsetD])
    then show ?thesis using assms(1) m True by (auto simp: sys_ok_def)
  qed
  then show ?thesis
    using assms(1) conns_of_update [OF True m] by (simp add: sys_ok_def c(2))
qed

lemma sys_ok_step:
  assumes "sys_ok sys" and "sys_step sys op = Inr sys'"
  shows "sys_ok sys'"
proof (cases op)
  case (Register m)
  with assms sys_ok_register [of sys m] show ?thesis by auto
next
  case (Unregister m)
  with assms sys_ok_unregister [of sys m] show ?thesis by auto
next
  case (Probe n dst d g k)
  with assms sys_ok_probe [of sys n dst d g k] show ?thesis by auto
next
  case (Message i env data src)
  with assms show ?thesis by (auto intro: sys_ok_message)
next
  case (Remove i)
  with assms sys_ok_remove [of sys i] show ?thesis by auto
qed

lemma sys_ok_run:
  assumes "sys_ok sys" and "sys_run sys ops = Inr sys'"
  shows "sys_ok sys'"
  using assms
proof (induction ops arbitrary: sys)
  case Nil
  then show ?case by simp
next
  case (Cons op ops)
  from Cons.prems(2) obtain s1 where s1: "sys_step sys op = Inr s1" "sys_run s1 ops = Inr sys'"
    by (auto split: sum.splits)
  from sys_ok_step [OF Cons.prems(1) s1(1)] Cons.IH s1(2) show ?case by blast
qed

lemma sys_ok_init: "sys_ok sys_init"
  by (simp add: sys_ok_def sys_init_def conns_of_def)

lemma connect_run:
  "sys_run sys_init connect_ops =
     Inr \<lparr>mgr_table = [ducati], module_refcount = (\<lambda>_. 0)(1 := 1),
          conns = [rprm_fresh ducati 60 hw0]\<rparr>"
  by (simp add: connect_ops_def sys_init_def rprm_manager_register_def rprm_probe_def
      find_mgr_by_name_def ducati_def)

lemma disconnect_run:
  "sys_run sys_init disconnect_ops =
     Inr \<lparr>mgr_table = [ducati], module_refcount = (\<lambda>_. 0)(1 := 0), conns = []\<rparr>"
  by (simp add: disconnect_ops_def sys_init_def rprm_manager_register_def rprm_probe_def
      find_mgr_by_name_def rprm_remove_channel_def rprm_remove_def rprm_fresh_def ducati_def)

text \<open>
  C9. In every state reached from the empty registry by registering and unregistering
  managers, probing and removing channels and delivering messages:
  \<^verbatim>\<open>rprm_manager_unregister\<close> returns \<^verbatim>\<open>-EBUSY\<close> and changes nothing when the reference
  count of the manager's module is not zero; when it is zero it returns 0 and the manager
  is no longer in the table afterwards. The reference count is the number of connections to
  managers of that module. So the manager of every connection is registered, and
  unregistering it fails, as long as the connection exists.
\<close>

theorem unregister_busy:
  assumes "sys_run sys_init ops = Inr sys"
  shows "(module_refcount sys (mgr_owner m) \<noteq> 0 \<longrightarrow>
            rprm_manager_unregister sys m = (- EBUSY, sys)) \<and>
         (module_refcount sys (mgr_owner m) = 0 \<longrightarrow>
            fst (rprm_manager_unregister sys m) = 0 \<and>
            m \<notin> set (mgr_table (snd (rprm_manager_unregister sys m))) \<and>
            conns (snd (rprm_manager_unregister sys m)) = conns sys) \<and>
         module_refcount sys (mgr_owner m) = conns_of sys (mgr_owner m) \<and>
         (\<forall>c \<in> set (conns sys).
            mgr c \<in> set (mgr_table sys) \<and>
            rprm_manager_unregister sys (mgr c) = (- EBUSY, sys))"
proof -
  from sys_ok_run [OF sys_ok_init assms] have ok: "sys_ok sys" .
  then have d: "distinct (mgr_table sys)"
    by (simp add: sys_ok_def distinct_map)
  have busy: "rprm_manager_unregister sys (mgr c) = (- EBUSY, sys)"
    if "c \<in> set (conns sys)" for c
    using conns_of_pos [OF that] ok by (simp add: rprm_manager_unregister_def sys_ok_def)
  from d have "m \<notin> set (remove1 m (mgr_table sys))" by simp
  with ok busy show ?thesis
    by (auto simp: rprm_manager_unregister_def sys_ok_def)
qed

text \<open>
  An instance: with a connection to the manager, unregistering it is refused; after the
  channel is removed, unregistering it succeeds.
\<close>

theorem unregister_busy_witness:
  "sys_run sys_init connect_ops = Inr (projr (sys_run sys_init connect_ops)) \<and>
   module_refcount (projr (sys_run sys_init connect_ops)) (mgr_owner ducati) = 1 \<and>
   map mgr (conns (projr (sys_run sys_init connect_ops))) = [ducati] \<and>
   rprm_manager_unregister (projr (sys_run sys_init connect_ops)) ducati =
     (- EBUSY, projr (sys_run sys_init connect_ops)) \<and>
   sys_run sys_init disconnect_ops = Inr (projr (sys_run sys_init disconnect_ops)) \<and>
   module_refcount (projr (sys_run sys_init disconnect_ops)) (mgr_owner ducati) = 0 \<and>
   fst (rprm_manager_unregister (projr (sys_run sys_init disconnect_ops)) ducati) = 0 \<and>
   ducati \<notin> set (mgr_table (snd (rprm_manager_unregister
                                   (projr (sys_run sys_init disconnect_ops)) ducati)))"
proof -
  let ?c = "projr (sys_run sys_init connect_ops)"
  let ?d = "projr (sys_run sys_init disconnect_ops)"
  have c: "sys_run sys_init connect_ops = Inr ?c"
    by (simp only: connect_run sum.sel)
  have d: "sys_run sys_init disconnect_ops = Inr ?d"
    by (simp only: disconnect_run sum.sel)
  have rc: "module_refcount ?c (mgr_owner ducati) = 1" "map mgr (conns ?c) = [ducati]"
    by (simp_all add: connect_run ducati_def rprm_fresh_def)
  have rd: "module_refcount ?d (mgr_owner ducati) = 0"
    by (simp add: disconnect_run ducati_def)
  from unregister_busy [OF c, of ducati] unregister_busy [OF d, of ducati] c d rc rd
  show ?thesis by simp
qed

end
